theory Spec2Isabelle
  imports Complex_Main "HOL-Library.Word" "HOL-Library.Stream" "HOL-Library.Sublist"
begin

section \<open>Data model of the dialogue engine (DialogueSystem.cpp)\<close>

text \<open>
  Conventions of the embedding.
  \<^item> A stored \<open>float\<close> or \<open>double\<close> (a slider, a weight, a cooldown, a time) is a
    finite value, modelled as a \<open>real\<close>; a literal such as \<open>0.6f\<close> is the real number
    \<open>6/10\<close>. Comparisons of stored values are exact in both.
  \<^item> The results of floating-point arithmetic (the binary32 sums of weights, the roll,
    the binary64 difference of two times) are values of the type \<open>fp\<close>: rounded to
    nearest, ties to even, with overflow to an infinity; see the section on
    floating-point arithmetic.
  \<^item> \<open>std::string\<close> is \<open>string\<close> (a list of bytes), \<open>size()\<close> is \<open>length\<close>.
  \<^item> \<open>std::unordered_set<std::string>\<close> is the list of its elements in the container's
    iteration order; \<open>find(x) == end()\<close> is \<open>x \<notin> set xs\<close>, \<open>*begin()\<close> is the head.
  \<^item> \<open>std::unordered_map\<close> is a partial map.
  \<^item> \<open>std::function\<close> is an optional HOL function (\<open>None\<close> for an empty one).
  \<^item> Record fields keep the source's names; the fields of \<open>DialogueTemplate\<close> whose
    names are taken (\<open>id\<close>, \<open>function\<close>, \<open>text\<close>, \<open>regionTone\<close>) carry the suffix
    \<open>_tmpl\<close>.
\<close>

datatype DialogueFunction =
    NeutralAmbient | Dread | Misdirection | RitualHint | Rumor
  | Bureaucratic | ThreatBark | Pain | Surprise

datatype ReliabilityTag = Unknown | Truthful | Partial | KnownFalse

datatype RegionTone = ForestVillage | SovietApartment | IndustrialBlock | BorderOutpost

datatype SpeakerSocialRole =
  Villager | Bureaucrat | Priest | Smuggler | Soldier | Doctor | Hermit

record DialogueContext =
  regionTone :: RegionTone
  threatLevel01 :: real
  isIndoors :: bool
  isNight :: bool
  playerRecentlyBrokeTaboo :: bool
  playerLowHealth :: bool
  playerIsBleeding :: bool
  inSafeRoomFlagged :: bool
  locationId :: string
  activeTabooIds :: "string list"
  recentEventIds :: "string list"
  knownRumorIds :: "string list"

record NPCVoiceProfile =
  npcId :: string
  displayName :: string
  role :: SpeakerSocialRole
  verbosity01 :: real
  superstition01 :: real
  bureaucratic01 :: real
  religiosity01 :: real
  cruelty01 :: real
  unreliability01 :: real
  fatalism01 :: real
  dialectTag :: string
  personalMotifs :: "string list"
  cooldownSeconds :: "DialogueFunction \<rightharpoonup> real"

record DialogueTemplate =
  id_tmpl :: string
  function_tmpl :: DialogueFunction
  reliability :: ReliabilityTag
  regionTone_tmpl :: RegionTone
  requiredTabooIds :: "string list"
  requiredEventIds :: "string list"
  disallowedLocationIds :: "string list"
  allowedRoles :: "SpeakerSocialRole list"
  text_tmpl :: string
  weight :: real
  condition :: "(DialogueContext \<Rightarrow> NPCVoiceProfile \<Rightarrow> bool) option"

record EmergentEvent =
  eventId :: string
  regionId :: string
  severity01 :: real
  timestampSeconds :: real

subsection \<open>Floating-point arithmetic\<close>

text \<open>
  A floating-point result is a finite real, an infinity or a NaN. The sign of zero is
  not kept (no operation of the engine depends on it). \<open>round_to_format p emin\<close>
  rounds a real to the nearest number with a \<open>p\<close>-bit significand and exponent at least
  \<open>emin\<close> (subnormal numbers included), ties to the even significand; \<open>fp_round\<close> adds
  the overflow to an infinity above the largest finite number of the format.
  \<open>round32\<close> is binary32 (\<open>float\<close>), \<open>round64\<close> is binary64 (\<open>double\<close>).
\<close>

datatype fp = Fin real | PInf | NInf | NaN

definition round_half_even :: "real \<Rightarrow> int" where
  "round_half_even y =
     (let f = \<lfloor>y\<rfloor>; d = y - of_int f
      in if d < 1 / 2 then f
         else if 1 / 2 < d then f + 1
         else if even f then f else f + 1)"

definition binade :: "int \<Rightarrow> real \<Rightarrow> int" where
  "binade emin x = max emin \<lfloor>log 2 \<bar>x\<bar>\<rfloor>"

definition round_to_format :: "nat \<Rightarrow> int \<Rightarrow> real \<Rightarrow> real" where
  "round_to_format p emin x =
     (let ulp = 2 powi (binade emin x - int p + 1)
      in ulp * of_int (round_half_even (x / ulp)))"

definition fp_round :: "nat \<Rightarrow> int \<Rightarrow> int \<Rightarrow> real \<Rightarrow> fp" where
  "fp_round p emin emax x =
     (let r = round_to_format p emin x
      in if 2 powi (emax + 1) \<le> \<bar>r\<bar> then (if 0 < r then PInf else NInf) else Fin r)"

definition round32 :: "real \<Rightarrow> fp" where
  "round32 x = fp_round 24 (- 126) 127 x"

definition round64 :: "real \<Rightarrow> fp" where
  "round64 x = fp_round 53 (- 1022) 1023 x"

text \<open>The operations take the rounding of the format they are computed in.\<close>

fun fp_neg :: "fp \<Rightarrow> fp" where
  "fp_neg (Fin a) = Fin (- a)"
| "fp_neg PInf = NInf"
| "fp_neg NInf = PInf"
| "fp_neg NaN = NaN"

fun fp_add :: "(real \<Rightarrow> fp) \<Rightarrow> fp \<Rightarrow> fp \<Rightarrow> fp" where
  "fp_add rnd (Fin a) (Fin b) = rnd (a + b)"
| "fp_add rnd NaN y = NaN"
| "fp_add rnd x NaN = NaN"
| "fp_add rnd PInf NInf = NaN"
| "fp_add rnd NInf PInf = NaN"
| "fp_add rnd PInf y = PInf"
| "fp_add rnd x PInf = PInf"
| "fp_add rnd NInf y = NInf"
| "fp_add rnd x NInf = NInf"

definition fp_sub :: "(real \<Rightarrow> fp) \<Rightarrow> fp \<Rightarrow> fp \<Rightarrow> fp" where
  "fp_sub rnd x y = fp_add rnd x (fp_neg y)"

fun fp_mul :: "(real \<Rightarrow> fp) \<Rightarrow> fp \<Rightarrow> fp \<Rightarrow> fp" where
  "fp_mul rnd (Fin a) (Fin b) = rnd (a * b)"
| "fp_mul rnd NaN y = NaN"
| "fp_mul rnd x NaN = NaN"
| "fp_mul rnd (Fin a) PInf = (if 0 < a then PInf else if a < 0 then NInf else NaN)"
| "fp_mul rnd (Fin a) NInf = (if 0 < a then NInf else if a < 0 then PInf else NaN)"
| "fp_mul rnd PInf (Fin b) = (if 0 < b then PInf else if b < 0 then NInf else NaN)"
| "fp_mul rnd NInf (Fin b) = (if 0 < b then NInf else if b < 0 then PInf else NaN)"
| "fp_mul rnd PInf PInf = PInf"
| "fp_mul rnd NInf NInf = PInf"
| "fp_mul rnd PInf NInf = NInf"
| "fp_mul rnd NInf PInf = NInf"

text \<open>The comparison \<open><=\<close>: false as soon as an operand is a NaN.\<close>

fun fp_le :: "fp \<Rightarrow> fp \<Rightarrow> bool" where
  "fp_le NaN y = False"
| "fp_le x NaN = False"
| "fp_le (Fin a) (Fin b) = (a \<le> b)"
| "fp_le NInf y = True"
| "fp_le x PInf = True"
| "fp_le PInf y = False"
| "fp_le x NInf = False"

definition fp_ge :: "fp \<Rightarrow> fp \<Rightarrow> bool" where
  "fp_ge x y = fp_le y x"

text \<open>The sum of a list of \<open>float\<close>s accumulated in binary32 from \<open>0.0f\<close>, in list order.\<close>

definition float_sum :: "real list \<Rightarrow> fp" where
  "float_sum ws = foldl (\<lambda>acc w. fp_add round32 acc (Fin w)) (Fin 0) ws"

subsection \<open>The random source (class RNG)\<close>

text \<open>
  The Mersenne-Twister engine is abstracted to the stream of its raw 32-bit outputs.
  Each call of a distribution consumes one output, normalised to the unit interval
  \<open>[0, 1)\<close> by \<open>unit_draw\<close>: a uniform \<open>float\<close> between \<open>lo\<close> and \<open>hi\<close> is
  \<open>u * (hi - lo) + lo\<close> computed in binary32, a Bernoulli draw with parameter \<open>p\<close>
  succeeds when \<open>u < p\<close>, and a uniform integer in \<open>[lo, hi]\<close> is
  \<open>lo + \<lfloor>u * (hi - lo + 1)\<rfloor>\<close>. \<open>Chance\<close> returns without a draw for \<open>p \<le> 0\<close> and
  \<open>p \<ge> 1\<close>, as the source does.
\<close>

type_synonym RNG = "32 word stream"

definition unit_draw :: "32 word \<Rightarrow> real" where
  "unit_draw w = real (unat w) / 4294967296"

definition RandomInt :: "int \<Rightarrow> int \<Rightarrow> RNG \<Rightarrow> int \<times> RNG" where
  "RandomInt minInclusive maxInclusive rng =
     (minInclusive + \<lfloor>unit_draw (shd rng) * real_of_int (maxInclusive - minInclusive + 1)\<rfloor>,
      stl rng)"

definition RandomFloat :: "fp \<Rightarrow> fp \<Rightarrow> RNG \<Rightarrow> fp \<times> RNG" where
  "RandomFloat minInclusive maxInclusive rng =
     (fp_add round32
        (fp_mul round32 (Fin (unit_draw (shd rng))) (fp_sub round32 maxInclusive minInclusive))
        minInclusive,
      stl rng)"

definition Chance :: "real \<Rightarrow> RNG \<Rightarrow> bool \<times> RNG" where
  "Chance probability01 rng =
     (if probability01 \<le> 0 then (False, rng)
      else if probability01 \<ge> 1 then (True, rng)
      else (unit_draw (shd rng) < probability01, stl rng))"

subsection \<open>The engine state (class DialogueSystem)\<close>

record DialogueSystem =
  rng :: RNG
  currentTimeSeconds :: real
  npcProfiles :: "string \<rightharpoonup> NPCVoiceProfile"
  templates :: "DialogueTemplate list"
  emergentEvents :: "EmergentEvent list"
  lastFireTimestamps :: "(string \<times> DialogueFunction) \<rightharpoonup> real"

definition SetCurrentTimeSeconds :: "DialogueSystem \<Rightarrow> real \<Rightarrow> DialogueSystem" where
  "SetCurrentTimeSeconds s t = s\<lparr>currentTimeSeconds := t\<rparr>"

definition RegisterNPCProfile :: "DialogueSystem \<Rightarrow> NPCVoiceProfile \<Rightarrow> DialogueSystem" where
  "RegisterNPCProfile s profile = s\<lparr>npcProfiles := (npcProfiles s)(npcId profile \<mapsto> profile)\<rparr>"

definition GetNPCProfile :: "DialogueSystem \<Rightarrow> string \<Rightarrow> NPCVoiceProfile option" where
  "GetNPCProfile s npc = npcProfiles s npc"

section \<open>Trigger to function mapping\<close>

definition MapTriggerToFunction ::
  "string \<Rightarrow> DialogueContext \<Rightarrow> NPCVoiceProfile \<Rightarrow> DialogueFunction" where
  "MapTriggerToFunction triggerTag ctx profile =
     (if triggerTag = ''on_enemy_spotted'' then ThreatBark
      else if triggerTag = ''on_player_pain'' then Pain
      else if triggerTag = ''on_player_surprised'' then Surprise
      else if triggerTag = ''on_player_breaks_taboo'' then RitualHint
      else if triggerTag = ''on_night_heartbeat'' then
        (if superstition01 profile > 6 / 10 then Dread else Rumor)
      else if triggerTag = ''on_enter_safehouse'' then
        (if bureaucratic01 profile > 5 / 10 then Bureaucratic else NeutralAmbient)
      else if threatLevel01 ctx > 6 / 10 then Dread
      else if knownRumorIds ctx \<noteq> [] then Rumor
      else NeutralAmbient)"

section \<open>Cooldown handling\<close>

text \<open>
  \<open>currentTimeSeconds - lastTime\<close> is a subtraction of two \<open>double\<close>s; its rounded
  result is compared with the cooldown, a \<open>float\<close> converted to \<open>double\<close> exactly.
\<close>

definition CanFire :: "DialogueSystem \<Rightarrow> NPCVoiceProfile \<Rightarrow> DialogueFunction \<Rightarrow> bool" where
  "CanFire s profile fn =
     (let key = (npcId profile, fn);
          it = lastFireTimestamps s key;
          cooldown = (case cooldownSeconds profile fn of Some c \<Rightarrow> c | None \<Rightarrow> 0)
      in if cooldown \<le> 0 then True
         else case it of
           None \<Rightarrow> True
         | Some lastTime \<Rightarrow>
             (if fp_ge (fp_sub round64 (Fin (currentTimeSeconds s)) (Fin lastTime)) (Fin cooldown)
              then True else False))"

definition TouchCooldown :: "DialogueSystem \<Rightarrow> string \<Rightarrow> DialogueFunction \<Rightarrow> DialogueSystem" where
  "TouchCooldown s npc fn =
     s\<lparr>lastFireTimestamps := (lastFireTimestamps s)((npc, fn) \<mapsto> currentTimeSeconds s)\<rparr>"

section \<open>Candidate collection\<close>

text \<open>The inner loops of \<open>CollectCandidates\<close>, each leaving at the first hit.\<close>

fun roleOk_loop :: "SpeakerSocialRole list \<Rightarrow> SpeakerSocialRole \<Rightarrow> bool" where
  "roleOk_loop [] profile_role = False"
| "roleOk_loop (r # rs) profile_role = (if r = profile_role then True else roleOk_loop rs profile_role)"

fun taboosOk_loop :: "string list \<Rightarrow> string list \<Rightarrow> bool" where
  "taboosOk_loop [] active = True"
| "taboosOk_loop (tb # tbs) active = (if tb \<notin> set active then False else taboosOk_loop tbs active)"

fun eventsOk_loop :: "string list \<Rightarrow> string list \<Rightarrow> bool" where
  "eventsOk_loop [] recent = True"
| "eventsOk_loop (ev # evs) recent = (if ev \<notin> set recent then False else eventsOk_loop evs recent)"

fun locationBlocked_loop :: "string list \<Rightarrow> string \<Rightarrow> bool" where
  "locationBlocked_loop [] here = False"
| "locationBlocked_loop (loc # locs) here = (if loc = here then True else locationBlocked_loop locs here)"

text \<open>
  The body of the outer loop for one template: \<open>True\<close> when the template reaches
  \<open>out.push_back\<close>, \<open>False\<close> when one of the \<open>continue\<close> statements is taken.
\<close>

definition candidate_passes ::
  "DialogueTemplate \<Rightarrow> DialogueContext \<Rightarrow> NPCVoiceProfile \<Rightarrow> DialogueFunction \<Rightarrow> bool" where
  "candidate_passes t ctx profile fn =
     (if function_tmpl t \<noteq> fn then False
      else if regionTone_tmpl t \<noteq> regionTone ctx \<and> regionTone_tmpl t \<noteq> ForestVillage
              \<and> regionTone ctx \<noteq> ForestVillage then False
      else if allowedRoles t \<noteq> [] \<and> \<not> roleOk_loop (allowedRoles t) (role profile) then False
      else if \<not> taboosOk_loop (requiredTabooIds t) (activeTabooIds ctx) then False
      else if \<not> eventsOk_loop (requiredEventIds t) (recentEventIds ctx) then False
      else if locationId ctx \<noteq> [] \<and> locationBlocked_loop (disallowedLocationIds t) (locationId ctx)
        then False
      else (case condition t of
              Some c \<Rightarrow> if \<not> c ctx profile then False else True
            | None \<Rightarrow> True))"

fun CollectCandidates_loop ::
  "DialogueTemplate list \<Rightarrow> DialogueContext \<Rightarrow> NPCVoiceProfile \<Rightarrow> DialogueFunction \<Rightarrow>
   DialogueTemplate list \<Rightarrow> DialogueTemplate list" where
  "CollectCandidates_loop [] ctx profile fn out = out"
| "CollectCandidates_loop (t # ts) ctx profile fn out =
     (if candidate_passes t ctx profile fn
      then CollectCandidates_loop ts ctx profile fn (out @ [t])
      else CollectCandidates_loop ts ctx profile fn out)"

text \<open>
  \<open>CollectCandidates\<close> reads the member \<open>templates\<close>; the pool is an argument here.
  The out-parameter is cleared first and returned.
\<close>

definition CollectCandidates ::
  "DialogueTemplate list \<Rightarrow> DialogueContext \<Rightarrow> NPCVoiceProfile \<Rightarrow> DialogueFunction \<Rightarrow>
   DialogueTemplate list" where
  "CollectCandidates pool ctx profile fn = CollectCandidates_loop pool ctx profile fn []"

section \<open>Weighted selection\<close>

text \<open>Both loops accumulate in a \<open>float\<close>: each addition is rounded to binary32.\<close>

fun totalWeight_loop :: "DialogueTemplate list \<Rightarrow> fp \<Rightarrow> fp" where
  "totalWeight_loop [] totalWeight = totalWeight"
| "totalWeight_loop (t # ts) totalWeight =
     totalWeight_loop ts (fp_add round32 totalWeight (Fin (weight t)))"

text \<open>The second loop; \<open>None\<close> when it falls through to \<open>return candidates.back()\<close>.\<close>

fun roll_loop :: "DialogueTemplate list \<Rightarrow> fp \<Rightarrow> fp \<Rightarrow> DialogueTemplate option" where
  "roll_loop [] roll cumulative = None"
| "roll_loop (t # ts) roll cumulative =
     (if fp_le roll (fp_add round32 cumulative (Fin (weight t))) then Some t
      else roll_loop ts roll (fp_add round32 cumulative (Fin (weight t))))"

definition PickTemplateWeighted ::
  "DialogueTemplate list \<Rightarrow> RNG \<Rightarrow> DialogueTemplate option \<times> RNG" where
  "PickTemplateWeighted candidates g =
     (if candidates = [] then (None, g)
      else
        let totalWeight = totalWeight_loop candidates (Fin 0) in
        if fp_le totalWeight (Fin 0) then (Some (candidates ! 0), g)
        else
          let (roll, g') = RandomFloat (Fin 0) totalWeight g in
          case roll_loop candidates roll (Fin 0) of
            Some t \<Rightarrow> (Some t, g')
          | None \<Rightarrow> (Some (last candidates), g'))"

section \<open>Template realization: token replacement and style\<close>

datatype error = BackOfEmptyString | IndexOutOfRange | DoesNotReturn

text \<open>
  \<open>std::string::find(token, pos)\<close>: the lowest index \<open>i \<ge> pos\<close> at which \<open>token\<close>
  occurs in \<open>text\<close>, \<open>None\<close> for \<open>npos\<close>.
\<close>

function string_find :: "string \<Rightarrow> string \<Rightarrow> nat \<Rightarrow> nat option" where
  "string_find text token pos =
     (if length text < pos + length token then None
      else if take (length token) (drop pos text) = token then Some pos
      else string_find text token (Suc pos))"
  by pat_completeness auto
termination
  by (relation "measure (\<lambda>(text, token, pos). Suc (length text) - pos)") auto

declare string_find.simps [simp del]

text \<open>
  \<open>std::string::rfind(c, pos)\<close>: the highest index \<open>i \<le> pos\<close> with \<open>text[i] = c\<close>,
  \<open>None\<close> for \<open>npos\<close>.
\<close>

fun string_rfind :: "string \<Rightarrow> char \<Rightarrow> nat \<Rightarrow> nat option" where
  "string_rfind text c 0 = (if text \<noteq> [] \<and> text ! 0 = c then Some 0 else None)"
| "string_rfind text c (Suc i) =
     (if Suc i < length text \<and> text ! Suc i = c then Some (Suc i) else string_rfind text c i)"

text \<open>
  The loop of \<open>ReplaceToken\<close>. \<open>text.replace(pos, token.length(), value)\<close> is
  \<open>take pos text @ value @ drop (pos + length token) text\<close>. The loop is a partial
  function: \<open>None\<close> stands for a run that does not return.
\<close>

partial_function (option) ReplaceToken_loop ::
  "string \<Rightarrow> string \<Rightarrow> string \<Rightarrow> nat \<Rightarrow> string option" where
  "ReplaceToken_loop text token val pos =
     (case string_find text token pos of
        None \<Rightarrow> Some text
      | Some p \<Rightarrow>
          ReplaceToken_loop (take p text @ val @ drop (p + length token) text) token val
            (p + length val))"

definition ReplaceToken :: "string \<Rightarrow> string \<Rightarrow> string \<Rightarrow> string option" where
  "ReplaceToken text token val =
     (if token = [] then Some text else ReplaceToken_loop text token val 0)"

definition PickPlayerCallsign :: "NPCVoiceProfile \<Rightarrow> string" where
  "PickPlayerCallsign profile =
     (case role profile of
        Bureaucrat \<Rightarrow> ''citizen''
      | Soldier \<Rightarrow> ''strannik''
      | Priest \<Rightarrow> ''soul''
      | _ \<Rightarrow> ''you'')"

definition PickLocalSpiritEpithet :: "DialogueContext \<Rightarrow> string" where
  "PickLocalSpiritEpithet ctx =
     (case regionTone ctx of
        ForestVillage \<Rightarrow> ''the bent one''
      | SovietApartment \<Rightarrow> ''the stairwell listener''
      | IndustrialBlock \<Rightarrow> ''the thing in the ducts''
      | BorderOutpost \<Rightarrow> ''the one beyond the fence'')"

text \<open>The hyphen of the second phrase is U+2011, three bytes in the source file.\<close>

definition PickTabooPhrase :: "DialogueContext \<Rightarrow> string" where
  "PickTabooPhrase ctx =
     (case activeTabooIds ctx of
        [] \<Rightarrow> ''the old rules''
      | anyId # _ \<Rightarrow>
          if anyId = ''TABS_WHISTLE_AT_NIGHT'' then ''no whistling after dark''
          else if anyId = ''TABS_NO_BUCKETS_UPSIDE_DOWN''
            then ''never leave a bucket mouth'' @ [CHR 0xE2, CHR 0x80, CHR 0x91] @ ''down''
          else ''the village law'')"

definition PickPlaceName :: "DialogueContext \<Rightarrow> string" where
  "PickPlaceName ctx =
     (if string_find (locationId ctx) ''ASHDITCH'' 0 \<noteq> None then ''Ash Ditch''
      else if string_find (locationId ctx) ''BLOCK_A'' 0 \<noteq> None then ''Block A stairwell''
      else ''this place'')"

definition PickBodySymptom :: "DialogueContext \<Rightarrow> string" where
  "PickBodySymptom ctx =
     (if playerIsBleeding ctx then ''bleeding''
      else if playerLowHealth ctx then ''shaking''
      else ''breathing'')"

text \<open>The five \<open>ReplaceToken\<close> calls of \<open>RealizeTemplate\<close>, in the source's order.\<close>

definition substitute_tokens ::
  "string \<Rightarrow> DialogueContext \<Rightarrow> NPCVoiceProfile \<Rightarrow> string option" where
  "substitute_tokens base ctx profile =
     Option.bind (ReplaceToken base ''{PLAYER_CALLSIGN}'' (PickPlayerCallsign profile)) (\<lambda>b1.
     Option.bind (ReplaceToken b1 ''{LOCAL_SPIRIT}'' (PickLocalSpiritEpithet ctx)) (\<lambda>b2.
     Option.bind (ReplaceToken b2 ''{TABOO}'' (PickTabooPhrase ctx)) (\<lambda>b3.
     Option.bind (ReplaceToken b3 ''{PLACE}'' (PickPlaceName ctx)) (\<lambda>b4.
     ReplaceToken b4 ''{BODYSYMPTOM}'' (PickBodySymptom ctx)))))"

text \<open>
  The four blocks of \<open>ApplyStyleNoise\<close>, one definition each, in the source's order.
  \<open>line.erase(cutPos)\<close> is \<open>take cutPos line\<close>. The right operand of \<open>&&\<close> (a draw)
  is evaluated only when the left one holds.
\<close>

definition style_truncate :: "string \<Rightarrow> NPCVoiceProfile \<Rightarrow> RNG \<Rightarrow> string \<times> RNG" where
  "style_truncate line profile g =
     (if verbosity01 profile < 3 / 10 then
        (if length line > 60 then
           (case string_rfind line (CHR '' '') 60 of
              Some cutPos \<Rightarrow>
                (let (c, g') = Chance (5 / 10) g
                 in if c then (take cutPos line @ ''...'', g') else (take cutPos line, g'))
            | None \<Rightarrow> (line, g))
         else (line, g))
      else (line, g))"

definition tails :: "string list" where
  "tails = ['' You get used to it.'',
            '' It was worse before.'',
            '' It never really stops.'',
            '' That'' @ [CHR 0x27] @ ''s just how it is here.'']"

definition style_fatalism ::
  "string \<Rightarrow> NPCVoiceProfile \<Rightarrow> DialogueFunction \<Rightarrow> RNG \<Rightarrow> error + string \<times> RNG" where
  "style_fatalism line profile fn g =
     (if fatalism01 profile > 6 / 10 then
        (let (c, g') = Chance (4 / 10) g
         in if c then
              (if fn = Dread \<or> fn = Rumor then
                 (let (idx, g'') = RandomInt 0 (int (length tails) - 1) g'
                  in if 0 \<le> idx \<and> idx < int (length tails)
                     then Inr (line @ tails ! nat idx, g'')
                     else Inl IndexOutOfRange)
               else Inr (line, g'))
            else Inr (line, g'))
      else Inr (line, g))"

definition style_bureaucratic ::
  "string \<Rightarrow> NPCVoiceProfile \<Rightarrow> DialogueFunction \<Rightarrow> RNG \<Rightarrow> string \<times> RNG" where
  "style_bureaucratic line profile fn g =
     (if bureaucratic01 profile > 5 / 10 \<and> fn = Bureaucratic then
        (let (c, g') = Chance (5 / 10) g
         in if c then (''According to regulations, '' @ line, g') else (line, g'))
      else (line, g))"

text \<open>\<open>line.back()\<close> on an empty string is undefined behaviour: the error \<open>BackOfEmptyString\<close>.\<close>

definition style_superstition ::
  "string \<Rightarrow> NPCVoiceProfile \<Rightarrow> RNG \<Rightarrow> error + string \<times> RNG" where
  "style_superstition line profile g =
     (if superstition01 profile > 7 / 10 then
        (let (c, g') = Chance (35 / 100) g
         in if c then
              (if line = [] then Inl BackOfEmptyString
               else
                 (let line' = (if last line = CHR ''.''
                               then line[length line - 1 := CHR '' ''] else line)
                  in Inr (line' @ ''Just... don'' @ [CHR 0x27] @ ''t ask.'', g')))
            else Inr (line, g'))
      else Inr (line, g))"

definition ApplyStyleNoise ::
  "string \<Rightarrow> NPCVoiceProfile \<Rightarrow> DialogueFunction \<Rightarrow> RNG \<Rightarrow> error + string \<times> RNG" where
  "ApplyStyleNoise line profile fn g =
     (let (l1, g1) = style_truncate line profile g
      in case style_fatalism l1 profile fn g1 of
           Inl e \<Rightarrow> Inl e
         | Inr (l2, g2) \<Rightarrow>
             (let (l3, g3) = style_bureaucratic l2 profile fn g2
              in style_superstition l3 profile g3))"

definition RealizeTemplate ::
  "DialogueTemplate \<Rightarrow> DialogueContext \<Rightarrow> NPCVoiceProfile \<Rightarrow> RNG \<Rightarrow> error + string \<times> RNG" where
  "RealizeTemplate t ctx profile g =
     (case substitute_tokens (text_tmpl t) ctx profile of
        None \<Rightarrow> Inl DoesNotReturn
      | Some base \<Rightarrow> ApplyStyleNoise base profile (function_tmpl t) g)"

section \<open>The main entry point\<close>

text \<open>
  \<open>GenerateLine\<close> returns the line and the engine state after the call; \<open>Inl\<close> when
  the call runs into undefined behaviour or does not return.
\<close>

definition GenerateLine ::
  "DialogueSystem \<Rightarrow> string \<Rightarrow> string \<Rightarrow> DialogueContext \<Rightarrow> error + string \<times> DialogueSystem" where
  "GenerateLine s npc triggerTag ctx =
     (case GetNPCProfile s npc of
        None \<Rightarrow> Inr ([], s)
      | Some profile \<Rightarrow>
          (let desiredFunction = MapTriggerToFunction triggerTag ctx profile
           in if \<not> CanFire s profile desiredFunction then Inr ([], s)
              else
                (let candidates = CollectCandidates (templates s) ctx profile desiredFunction
                 in if candidates = [] then Inr ([], s)
                    else
                      (case PickTemplateWeighted candidates (rng s) of
                         (None, g) \<Rightarrow> Inr ([], s\<lparr>rng := g\<rparr>)
                       | (Some chosen, g) \<Rightarrow>
                           (let s1 = TouchCooldown (s\<lparr>rng := g\<rparr>) (npcId profile) desiredFunction
                            in case RealizeTemplate chosen ctx profile (rng s1) of
                                 Inl e \<Rightarrow> Inl e
                               | Inr (line, g') \<Rightarrow> Inr (line, s1\<lparr>rng := g'\<rparr>))))))"

definition NotifyEvent :: "DialogueSystem \<Rightarrow> string \<Rightarrow> string \<Rightarrow> real \<Rightarrow> DialogueSystem" where
  "NotifyEvent s ev region severity =
     s\<lparr>emergentEvents := emergentEvents s @
         [\<lparr>eventId = ev, regionId = region, severity01 = severity,
           timestampSeconds = currentTimeSeconds s\<rparr>]\<rparr>"

section \<open>Reference function for token replacement\<close>

text \<open>
  Replacing every occurrence of a token, read off the text from left to right: where
  the token starts, the value is written and the token skipped; elsewhere the character
  is kept. It is the function \<open>ReplaceToken\<close> is compared with.
\<close>

function replace_every_occurrence :: "string \<Rightarrow> string \<Rightarrow> string \<Rightarrow> string" where
  "replace_every_occurrence token val [] = []"
| "replace_every_occurrence token val (c # cs) =
     (if token \<noteq> [] \<and> prefix token (c # cs)
      then val @ replace_every_occurrence token val (drop (length token) (c # cs))
      else c # replace_every_occurrence token val cs)"
  by pat_completeness auto
termination
  by (relation "measure (\<lambda>(token, val, text). length text)") auto

section \<open>Default member initialisers and the demo of \<open>main\<close>\<close>

definition default_cooldownSeconds :: "DialogueFunction \<rightharpoonup> real" where
  "default_cooldownSeconds =
     [NeutralAmbient \<mapsto> 20, Dread \<mapsto> 15, Misdirection \<mapsto> 25, RitualHint \<mapsto> 45, Rumor \<mapsto> 40,
      Bureaucratic \<mapsto> 35, ThreatBark \<mapsto> 5, Pain \<mapsto> 3, Surprise \<mapsto> 8]"

definition default_NPCVoiceProfile :: NPCVoiceProfile where
  "default_NPCVoiceProfile =
     \<lparr>npcId = [], displayName = [], role = Villager,
      verbosity01 = 4 / 10, superstition01 = 8 / 10, bureaucratic01 = 0,
      religiosity01 = 3 / 10, cruelty01 = 2 / 10, unreliability01 = 4 / 10,
      fatalism01 = 7 / 10, dialectTag = [], personalMotifs = [],
      cooldownSeconds = default_cooldownSeconds\<rparr>"

definition default_DialogueContext :: DialogueContext where
  "default_DialogueContext =
     \<lparr>regionTone = ForestVillage, threatLevel01 = 0, isIndoors = False, isNight = False,
      playerRecentlyBrokeTaboo = False, playerLowHealth = False, playerIsBleeding = False,
      inSafeRoomFlagged = False, locationId = [], activeTabooIds = [], recentEventIds = [],
      knownRumorIds = []\<rparr>"

definition default_DialogueTemplate :: DialogueTemplate where
  "default_DialogueTemplate =
     \<lparr>id_tmpl = [], function_tmpl = NeutralAmbient, reliability = Unknown,
      regionTone_tmpl = ForestVillage, requiredTabooIds = [], requiredEventIds = [],
      disallowedLocationIds = [], allowedRoles = [], text_tmpl = [], weight = 1,
      condition = None\<rparr>"

definition oldNeighbor :: NPCVoiceProfile where
  "oldNeighbor =
     default_NPCVoiceProfile
       \<lparr>npcId := ''NPC_OLD_NEIGHBOR'', displayName := ''Old Neighbor'', role := Villager,
        verbosity01 := 4 / 10, superstition01 := 9 / 10, bureaucratic01 := 0,
        religiosity01 := 5 / 10, cruelty01 := 3 / 10, unreliability01 := 5 / 10,
        fatalism01 := 8 / 10, dialectTag := ''rural_polish_like'',
        personalMotifs := [''missing_children'', ''forest_debts'']\<rparr>"

definition demo_ctx :: DialogueContext where
  "demo_ctx =
     default_DialogueContext
       \<lparr>regionTone := ForestVillage, isNight := True, threatLevel01 := 5 / 10,
        locationId := ''PLC_VILLAGE_ASHDITCH'',
        activeTabooIds := [''TABS_WHISTLE_AT_NIGHT''],
        recentEventIds := [''EV_WELL_COLLAPSE_ASHDITCH''],
        playerLowHealth := True, playerIsBleeding := True\<rparr>"

text \<open>The five templates of \<open>InitializeDefaultTemplates\<close> and the constructor.\<close>

definition template_t1 :: DialogueTemplate where
  "template_t1 =
     default_DialogueTemplate
       \<lparr>id_tmpl := ''ONB_FOREST_DREAD_01'', function_tmpl := Dread, reliability := Unknown,
        regionTone_tmpl := ForestVillage, allowedRoles := [Villager, Hermit],
        text_tmpl := ''The trees remember what the village forgets.'',
        weight := 2,
        condition := Some (\<lambda>ctx profile. isNight ctx \<and> threatLevel01 ctx > 3 / 10)\<rparr>"

definition template_t2 :: DialogueTemplate where
  "template_t2 =
     default_DialogueTemplate
       \<lparr>id_tmpl := ''ONB_VILLAGER_LIE_DISAPPEAR'', function_tmpl := Misdirection,
        reliability := KnownFalse, regionTone_tmpl := ForestVillage,
        allowedRoles := [Villager], requiredEventIds := [''EV_WELL_COLLAPSE_ASHDITCH''],
        text_tmpl := ''No one has gone missing since they fixed the wires.'',
        weight := 1, condition := Some (\<lambda>ctx profile. isNight ctx)\<rparr>"

definition template_t3 :: DialogueTemplate where
  "template_t3 =
     default_DialogueTemplate
       \<lparr>id_tmpl := ''ONB_RITUAL_HINT_WHISTLE'', function_tmpl := RitualHint,
        reliability := Partial, regionTone_tmpl := ForestVillage,
        allowedRoles := [Villager, Priest], requiredTabooIds := [''TABS_WHISTLE_AT_NIGHT''],
        text_tmpl := ''If the branches start singing, count your teeth and keep walking.'',
        weight := 15 / 10,
        condition := Some (\<lambda>ctx profile. isNight ctx \<and> threatLevel01 ctx > 2 / 10)\<rparr>"

definition template_t4 :: DialogueTemplate where
  "template_t4 =
     default_DialogueTemplate
       \<lparr>id_tmpl := ''BUREAU_FLAT_NOTICE_01'', function_tmpl := Bureaucratic,
        reliability := Truthful, regionTone_tmpl := SovietApartment,
        allowedRoles := [Bureaucrat, Doctor],
        text_tmpl := ''If you hear singing in the stairwell, do not open your door. ''
                     @ ''The building committee is handling it.'',
        weight := 1,
        condition := Some (\<lambda>ctx profile. isIndoors ctx \<and> isNight ctx)\<rparr>"

definition template_t5 :: DialogueTemplate where
  "template_t5 =
     default_DialogueTemplate
       \<lparr>id_tmpl := ''GENERIC_PAIN_01'', function_tmpl := Pain, reliability := Truthful,
        text_tmpl := ''Hold still. You'' @ [CHR 0x27] @ ''re leaking like the old well.'',
        weight := 3, condition := Some (\<lambda>ctx profile. playerIsBleeding ctx)\<rparr>"

definition InitializeDefaultTemplates :: "DialogueTemplate list" where
  "InitializeDefaultTemplates = [template_t1, template_t2, template_t3, template_t4, template_t5]"

definition DialogueSystem_init :: "RNG \<Rightarrow> DialogueSystem" where
  "DialogueSystem_init g =
     \<lparr>rng = g, currentTimeSeconds = 0, npcProfiles = Map.empty,
      templates = InitializeDefaultTemplates, emergentEvents = [],
      lastFireTimestamps = Map.empty\<rparr>"

section \<open>Concrete inputs\<close>

text \<open>
  An engine as constructed, with further templates appended to the pool (as the data
  loader does through \<open>AddTemplate\<close>) and one profile registered.
\<close>

definition loaded_system :: "RNG \<Rightarrow> DialogueTemplate list \<Rightarrow> NPCVoiceProfile \<Rightarrow> DialogueSystem" where
  "loaded_system g extra profile =
     RegisterNPCProfile
       ((DialogueSystem_init g)\<lparr>templates := InitializeDefaultTemplates @ extra\<rparr>) profile"

text \<open>
  A pain bark whose text starts with a space and has no other space among its first
  61 characters; the loader accepts it (identifier and text are non-empty).
\<close>

definition scream_text :: string where
  "scream_text = CHR '' '' # replicate 61 (CHR ''A'') @ ''h!''"

definition scream_template :: DialogueTemplate where
  "scream_template =
     default_DialogueTemplate
       \<lparr>id_tmpl := ''PAIN_SCREAM_01'', function_tmpl := Pain, text_tmpl := scream_text\<rparr>"

text \<open>A pain bark with weight zero.\<close>

definition muted_template :: DialogueTemplate where
  "muted_template =
     default_DialogueTemplate
       \<lparr>id_tmpl := ''PAIN_MUTED_01'', function_tmpl := Pain, text_tmpl := ''Quiet now.'',
        weight := 0\<rparr>"

text \<open>
  Three pain barks with the weights \<open>-10^8\<close>, \<open>1\<close> and \<open>10^8\<close>, each a binary32 number;
  their exact sum is 1.
\<close>

definition cancelling_candidates :: "DialogueTemplate list" where
  "cancelling_candidates =
     [default_DialogueTemplate
        \<lparr>id_tmpl := ''PAIN_DEBT_01'', function_tmpl := Pain, text_tmpl := ''It takes.'',
         weight := - 100000000\<rparr>,
      default_DialogueTemplate
        \<lparr>id_tmpl := ''PAIN_DEBT_02'', function_tmpl := Pain, text_tmpl := ''It waits.'',
         weight := 1\<rparr>,
      default_DialogueTemplate
        \<lparr>id_tmpl := ''PAIN_DEBT_03'', function_tmpl := Pain, text_tmpl := ''It gives back.'',
         weight := 100000000\<rparr>]"

text \<open>A profile with the default sliders but low verbosity.\<close>

definition terse_npc :: NPCVoiceProfile where
  "terse_npc = default_NPCVoiceProfile\<lparr>npcId := ''NPC_TERSE'', verbosity01 := 2 / 10\<rparr>"

text \<open>A line of 61 characters without a space.\<close>

definition unbroken_line :: string where
  "unbroken_line = replicate 61 (CHR ''A'')"

text \<open>
  Two times of day as the caller passes them: the \<open>double\<close>s nearest to 0.3 and to 3.3.
  Their exact difference is \<open>3 - 3 / 2^54\<close>.
\<close>

definition time_first :: real where
  "time_first = 5404319552844595 / 2 ^ 54"

definition time_second :: real where
  "time_second = 7430939385161318 / 2 ^ 51"

section \<open>Theorems\<close>

text \<open>
  C5. The trigger router is total and returns, for every tag, context and profile:
  threat-bark for "on_enemy_spotted", pain for "on_player_pain", surprise for
  "on_player_surprised", ritual-hint for "on_player_breaks_taboo"; for
  "on_night_heartbeat" dread iff the superstition slider exceeds 0.6 and rumor
  otherwise; for "on_enter_safehouse" bureaucratic iff the bureaucratic slider exceeds
  0.5 and ambient otherwise; for every other tag dread if the threat level exceeds 0.6,
  else rumor if the known-rumor set is non-empty, else ambient.
\<close>

theorem trigger_router_table:
  "MapTriggerToFunction ''on_enemy_spotted'' ctx profile = ThreatBark
   \<and> MapTriggerToFunction ''on_player_pain'' ctx profile = Pain
   \<and> MapTriggerToFunction ''on_player_surprised'' ctx profile = Surprise
   \<and> MapTriggerToFunction ''on_player_breaks_taboo'' ctx profile = RitualHint
   \<and> (MapTriggerToFunction ''on_night_heartbeat'' ctx profile = Dread
        \<longleftrightarrow> superstition01 profile > 6 / 10)
   \<and> (MapTriggerToFunction ''on_night_heartbeat'' ctx profile = Rumor
        \<longleftrightarrow> \<not> superstition01 profile > 6 / 10)
   \<and> (MapTriggerToFunction ''on_enter_safehouse'' ctx profile = Bureaucratic
        \<longleftrightarrow> bureaucratic01 profile > 5 / 10)
   \<and> (MapTriggerToFunction ''on_enter_safehouse'' ctx profile = NeutralAmbient
        \<longleftrightarrow> \<not> bureaucratic01 profile > 5 / 10)
   \<and> (tag \<notin> {''on_enemy_spotted'', ''on_player_pain'', ''on_player_surprised'',
               ''on_player_breaks_taboo'', ''on_night_heartbeat'', ''on_enter_safehouse''}
        \<longrightarrow> MapTriggerToFunction tag ctx profile =
             (if threatLevel01 ctx > 6 / 10 then Dread
              else if knownRumorIds ctx \<noteq> [] then Rumor
              else NeutralAmbient))"
  by (simp add: MapTriggerToFunction_def)

theorem trigger_router_table_witness:
  "MapTriggerToFunction ''on_enemy_spotted'' demo_ctx oldNeighbor = ThreatBark
   \<and> MapTriggerToFunction ''on_night_heartbeat'' demo_ctx oldNeighbor = Dread
   \<and> MapTriggerToFunction ''on_enter_safehouse'' demo_ctx oldNeighbor = NeutralAmbient
   \<and> ''on_greeting'' \<notin> {''on_enemy_spotted'', ''on_player_pain'', ''on_player_surprised'',
               ''on_player_breaks_taboo'', ''on_night_heartbeat'', ''on_enter_safehouse''}
   \<and> MapTriggerToFunction ''on_greeting'' demo_ctx oldNeighbor = NeutralAmbient"
  using trigger_router_table [of demo_ctx oldNeighbor "''on_greeting''"]
  by (simp add: demo_ctx_def oldNeighbor_def default_DialogueContext_def
      default_NPCVoiceProfile_def)

subsection \<open>Candidate filter\<close>

lemma roleOk_loop_iff: "roleOk_loop rs r \<longleftrightarrow> r \<in> set rs"
  by (induction rs) auto

lemma taboosOk_loop_iff: "taboosOk_loop tbs active \<longleftrightarrow> (\<forall>tb\<in>set tbs. tb \<in> set active)"
  by (induction tbs) auto

lemma eventsOk_loop_iff: "eventsOk_loop evs recent \<longleftrightarrow> (\<forall>ev\<in>set evs. ev \<in> set recent)"
  by (induction evs) auto

lemma locationBlocked_loop_iff: "locationBlocked_loop locs here \<longleftrightarrow> here \<in> set locs"
  by (induction locs) auto

lemma candidate_passes_iff:
  "candidate_passes t ctx profile fn \<longleftrightarrow>
     function_tmpl t = fn
     \<and> (regionTone_tmpl t = regionTone ctx \<or> regionTone_tmpl t = ForestVillage
          \<or> regionTone ctx = ForestVillage)
     \<and> (allowedRoles t = [] \<or> role profile \<in> set (allowedRoles t))
     \<and> (\<forall>tb\<in>set (requiredTabooIds t). tb \<in> set (activeTabooIds ctx))
     \<and> (\<forall>ev\<in>set (requiredEventIds t). ev \<in> set (recentEventIds ctx))
     \<and> (locationId ctx \<noteq> [] \<longrightarrow> locationId ctx \<notin> set (disallowedLocationIds t))
     \<and> (case condition t of None \<Rightarrow> True | Some c \<Rightarrow> c ctx profile)"
  unfolding candidate_passes_def roleOk_loop_iff taboosOk_loop_iff eventsOk_loop_iff
    locationBlocked_loop_iff
  by (cases "condition t") auto

lemma CollectCandidates_loop_filter:
  "CollectCandidates_loop ts ctx profile fn out =
     out @ filter (\<lambda>t. candidate_passes t ctx profile fn) ts"
  by (induction ts arbitrary: out) auto

text \<open>
  C1. For every pool, context, profile and requested category, \<open>CollectCandidates\<close>
  returns exactly the templates of the pool, in pool order, that satisfy all of: the
  category equals the requested one; the tone equals the context tone or either of them
  is \<open>ForestVillage\<close>; the allowed-role list is empty or contains the profile's role;
  every required taboo is in the context's active taboos; every required event is in
  the context's recent events; if the context's location is non-empty, it is none of
  the disallowed locations; the optional predicate, if present, holds of the context
  and the profile. In particular a template with an unmet required event is never a
  candidate.
\<close>

theorem candidate_filter_exact:
  "CollectCandidates pool ctx profile fn =
     filter (\<lambda>T.
       function_tmpl T = fn
       \<and> (regionTone_tmpl T = regionTone ctx \<or> regionTone_tmpl T = ForestVillage
            \<or> regionTone ctx = ForestVillage)
       \<and> (allowedRoles T = [] \<or> role profile \<in> set (allowedRoles T))
       \<and> (\<forall>tb\<in>set (requiredTabooIds T). tb \<in> set (activeTabooIds ctx))
       \<and> (\<forall>ev\<in>set (requiredEventIds T). ev \<in> set (recentEventIds ctx))
       \<and> (locationId ctx \<noteq> [] \<longrightarrow> locationId ctx \<notin> set (disallowedLocationIds T))
       \<and> (case condition T of None \<Rightarrow> True | Some c \<Rightarrow> c ctx profile)) pool
   \<and> (\<forall>T ev. ev \<in> set (requiredEventIds T) \<and> ev \<notin> set (recentEventIds ctx)
         \<longrightarrow> T \<notin> set (CollectCandidates pool ctx profile fn))"
proof -
  have eq: "CollectCandidates pool ctx profile fn =
      filter (\<lambda>T. candidate_passes T ctx profile fn) pool"
    by (simp add: CollectCandidates_def CollectCandidates_loop_filter)
  have unmet: "T \<notin> set (CollectCandidates pool ctx profile fn)"
    if "ev \<in> set (requiredEventIds T)" "ev \<notin> set (recentEventIds ctx)" for T ev
    using that by (auto simp: eq candidate_passes_iff)
  from eq unmet show ?thesis
    by (simp only: candidate_passes_iff) blast
qed

theorem candidate_filter_exact_witness:
  "CollectCandidates [template_t2, template_t5] demo_ctx oldNeighbor Misdirection = [template_t2]
   \<and> ''EV_WELL_COLLAPSE_ASHDITCH'' \<in> set (requiredEventIds template_t2)
   \<and> ''EV_WELL_COLLAPSE_ASHDITCH'' \<notin> set (recentEventIds (demo_ctx\<lparr>recentEventIds := []\<rparr>))
   \<and> template_t2 \<notin> set (CollectCandidates [template_t2, template_t5]
        (demo_ctx\<lparr>recentEventIds := []\<rparr>) oldNeighbor Misdirection)"
proof -
  have a: "CollectCandidates [template_t2, template_t5] demo_ctx oldNeighbor Misdirection
      = [template_t2]"
    using candidate_filter_exact [of "[template_t2, template_t5]" demo_ctx oldNeighbor Misdirection]
    by (simp add: template_t2_def template_t5_def demo_ctx_def oldNeighbor_def
        default_DialogueContext_def default_NPCVoiceProfile_def default_DialogueTemplate_def)
  have b: "''EV_WELL_COLLAPSE_ASHDITCH'' \<in> set (requiredEventIds template_t2)"
    by (simp add: template_t2_def default_DialogueTemplate_def)
  have c: "''EV_WELL_COLLAPSE_ASHDITCH'' \<notin> set (recentEventIds (demo_ctx\<lparr>recentEventIds := []\<rparr>))"
    by simp
  from b c candidate_filter_exact [of "[template_t2, template_t5]"
      "demo_ctx\<lparr>recentEventIds := []\<rparr>" oldNeighbor Misdirection]
  have d: "template_t2 \<notin> set (CollectCandidates [template_t2, template_t5]
        (demo_ctx\<lparr>recentEventIds := []\<rparr>) oldNeighbor Misdirection)"
    by blast
  from a b c d show ?thesis by blast
qed

subsection \<open>Floating-point rounding\<close>

lemma rhe_bounds: "\<lfloor>y\<rfloor> \<le> round_half_even y \<and> round_half_even y \<le> \<lfloor>y\<rfloor> + 1"
  by (simp add: round_half_even_def Let_def)

lemma rhe_int [simp]: "round_half_even (of_int n) = n"
  by (simp add: round_half_even_def)

lemma rhe_zero [simp]: "round_half_even 0 = 0"
  by (simp add: round_half_even_def)

lemma rhe_mono:
  assumes "x \<le> y"
  shows "round_half_even x \<le> round_half_even y"
proof (cases "\<lfloor>x\<rfloor> = \<lfloor>y\<rfloor>")
  case True
  with assms show ?thesis
    by (auto simp: round_half_even_def Let_def)
next
  case False
  from assms have "\<lfloor>x\<rfloor> \<le> \<lfloor>y\<rfloor>" by (rule floor_mono)
  with False have "\<lfloor>x\<rfloor> + 1 \<le> \<lfloor>y\<rfloor>" by simp
  with rhe_bounds [of x] rhe_bounds [of y] show ?thesis by linarith
qed

lemma rhe_neg: "round_half_even (- y) = - round_half_even y"
proof (cases "y = of_int \<lfloor>y\<rfloor>")
  case True
  then obtain n where "y = of_int n" by metis
  then show ?thesis by (simp add: round_half_even_def flip: of_int_minus)
next
  case False
  then have fl: "\<lfloor>- y\<rfloor> = - \<lfloor>y\<rfloor> - 1"
    by (metis ceiling_altdef ceiling_def add_diff_cancel_right' minus_diff_eq diff_minus_eq_add uminus_add_conv_diff)
  have d: "0 < y - of_int \<lfloor>y\<rfloor>" "y - of_int \<lfloor>y\<rfloor> < 1"
    using False by linarith+
  show ?thesis
    unfolding round_half_even_def Let_def fl using d
    by (auto simp: field_simps)
qed


lemma floor_log2_bounds:
  assumes "0 < x"
  shows "2 powi \<lfloor>log 2 x\<rfloor> \<le> x \<and> x < 2 powi (\<lfloor>log 2 x\<rfloor> + 1)"
proof -
  have "2 powr real_of_int \<lfloor>log 2 x\<rfloor> \<le> x \<and> x < 2 powr real_of_int (\<lfloor>log 2 x\<rfloor> + 1)"
    using floor_log_eq_powr_iff [of x 2 "\<lfloor>log 2 x\<rfloor>"] assms by simp
  then show ?thesis by (simp only: powr_real_of_int' [of 2, simplified])
qed

lemma floor_log2_eqI:
  assumes "2 powi k \<le> x" "x < 2 powi (k + 1)"
  shows "\<lfloor>log 2 x\<rfloor> = k"
proof -
  have pos: "0 < x" using assms(1) by (smt (verit) zero_less_power_int)
  have "2 powr real_of_int k \<le> x \<and> x < 2 powr real_of_int (k + 1)"
    using assms by (simp only: powr_real_of_int' [of 2, simplified])
  with floor_log_eq_powr_iff [of x 2 k] pos show ?thesis by simp
qed

lemma binade_ge: "emin \<le> binade emin x"
  by (simp add: binade_def)

lemma binade_upper:
  assumes "x \<noteq> 0"
  shows "\<bar>x\<bar> < 2 powi (binade emin x + 1)"
proof -
  have "\<bar>x\<bar> < 2 powi (\<lfloor>log 2 \<bar>x\<bar>\<rfloor> + 1)"
    using floor_log2_bounds [of "\<bar>x\<bar>"] assms by simp
  also have "\<dots> \<le> 2 powi (binade emin x + 1)"
    by (intro power_int_increasing) (simp_all add: binade_def)
  finally show ?thesis .
qed

lemma binade_lower:
  assumes "x \<noteq> 0" "emin < binade emin x"
  shows "2 powi (binade emin x) \<le> \<bar>x\<bar>"
proof -
  from assms(2) have "binade emin x = \<lfloor>log 2 \<bar>x\<bar>\<rfloor>" by (simp add: binade_def max_def split: if_splits)
  with floor_log2_bounds [of "\<bar>x\<bar>"] assms(1) show ?thesis by simp
qed

lemma binade_mono:
  assumes "0 < x" "x \<le> y"
  shows "binade emin x \<le> binade emin y"
proof -
  have "log 2 \<bar>x\<bar> \<le> log 2 \<bar>y\<bar>" using assms by simp
  then have "\<lfloor>log 2 \<bar>x\<bar>\<rfloor> \<le> \<lfloor>log 2 \<bar>y\<bar>\<rfloor>" by (rule floor_mono)
  then show ?thesis by (simp add: binade_def max_def)
qed

lemma binade_neg [simp]: "binade emin (- x) = binade emin x"
  by (simp add: binade_def)

lemma binade_eqI:
  assumes "0 < y" "y < 2 powi (e + 1)" "emin \<le> e" "emin < e \<longrightarrow> 2 powi e \<le> y"
  shows "binade emin y = e"
proof (cases "emin < e")
  case True
  with assms have "\<lfloor>log 2 y\<rfloor> = e" by (intro floor_log2_eqI) auto
  with True assms(1) show ?thesis by (simp add: binade_def)
next
  case False
  with assms(3) have e: "e = emin" by simp
  have "\<lfloor>log 2 y\<rfloor> \<le> emin"
  proof (rule ccontr)
    assume "\<not> \<lfloor>log 2 y\<rfloor> \<le> emin"
    then have "emin + 1 \<le> \<lfloor>log 2 y\<rfloor>" by simp
    then have "(2::real) powi (emin + 1) \<le> 2 powi \<lfloor>log 2 y\<rfloor>"
      by (intro power_int_increasing) simp_all
    with floor_log2_bounds [OF assms(1)] assms(2) e show False by simp
  qed
  with assms(1) e show ?thesis by (simp add: binade_def)
qed


lemma ulp_pos: "0 < (2::real) powi k"
  by simp

lemma pow2_int: "0 \<le> k \<Longrightarrow> (2::real) powi k = of_int (2 ^ nat k)"
  by (simp add: power_int_def)

text \<open>Range of the rounded value of a positive number.\<close>

lemma round_pos_range:
  assumes p: "1 \<le> p" and x: "0 < x"
  shows "0 \<le> round_to_format p emin x"
    and "round_to_format p emin x \<le> 2 powi (binade emin x + 1)"
    and "emin < binade emin x \<Longrightarrow> 2 powi (binade emin x) \<le> round_to_format p emin x"
proof -
  let ?e = "binade emin x"
  let ?u = "(2::real) powi (?e - int p + 1)"
  have u: "0 < ?u" by simp
  have R: "round_to_format p emin x = ?u * of_int (round_half_even (x / ?u))"
    by (simp add: round_to_format_def Let_def)
  have "0 \<le> x / ?u" using x u by simp
  from rhe_mono [OF this] have m0: "0 \<le> round_half_even (x / ?u)" by simp
  with u show "0 \<le> round_to_format p emin x" by (simp add: R)
  have top: "(2::real) powi (?e + 1) = ?u * of_int (2 ^ p)"
  proof -
    have "(2::real) powi (?e + 1) = 2 powi ((?e - int p + 1) + int p)" by simp
    also have "\<dots> = ?u * 2 powi (int p)" by (subst power_int_add) simp_all
    finally show ?thesis by simp
  qed
  have "x / ?u \<le> of_int (2 ^ p)"
  proof -
    have "x \<le> 2 powi (?e + 1)" using binade_upper [of x emin] x by simp
    then have "x / ?u \<le> 2 powi (?e + 1) / ?u" using u by (simp add: divide_right_mono)
    also have "\<dots> = of_int (2 ^ p)" using u by (simp add: top)
    finally show ?thesis .
  qed
  from rhe_mono [OF this] have "round_half_even (x / ?u) \<le> 2 ^ p" by (simp only: rhe_int)
  then have "real_of_int (round_half_even (x / ?u)) \<le> of_int (2 ^ p)" by (simp only: of_int_le_iff)
  with u have "?u * of_int (round_half_even (x / ?u)) \<le> ?u * of_int (2 ^ p)"
    by (intro mult_left_mono) simp_all
  then show "round_to_format p emin x \<le> 2 powi (?e + 1)" by (simp only: R top)
  assume big: "emin < ?e"
  have bot: "(2::real) powi ?e = ?u * of_int (2 ^ (p - 1))"
  proof -
    have "(2::real) powi ?e = 2 powi ((?e - int p + 1) + int (p - 1))" using p by simp
    also have "\<dots> = ?u * 2 powi (int (p - 1))" by (subst power_int_add) simp_all
    finally show ?thesis by simp
  qed
  have "of_int (2 ^ (p - 1)) \<le> x / ?u"
  proof -
    have "2 powi ?e \<le> x" using binade_lower [of x emin] x big by simp
    then have "2 powi ?e / ?u \<le> x / ?u" using u by (simp add: divide_right_mono)
    moreover have "2 powi ?e / ?u = of_int (2 ^ (p - 1))" using u by (simp add: bot)
    ultimately show ?thesis by simp
  qed
  from rhe_mono [OF this] have "2 ^ (p - 1) \<le> round_half_even (x / ?u)" by (simp only: rhe_int)
  then have "real_of_int (2 ^ (p - 1)) \<le> of_int (round_half_even (x / ?u))"
    by (simp only: of_int_le_iff)
  with u have "?u * of_int (2 ^ (p - 1)) \<le> ?u * of_int (round_half_even (x / ?u))"
    by (intro mult_left_mono) simp_all
  then show "2 powi ?e \<le> round_to_format p emin x" by (simp only: R bot)
qed

lemma round_zero [simp]: "round_to_format p emin 0 = 0"
  by (simp add: round_to_format_def)

lemma round_neg: "round_to_format p emin (- x) = - round_to_format p emin x"
  by (simp add: round_to_format_def Let_def rhe_neg)

lemma round_mono_pos:
  assumes p: "1 \<le> p" and x: "0 < x" and xy: "x \<le> y"
  shows "round_to_format p emin x \<le> round_to_format p emin y"
proof (cases "binade emin x = binade emin y")
  case True
  let ?u = "(2::real) powi (binade emin y - int p + 1)"
  have u: "0 < ?u" by simp
  from xy u have "x / ?u \<le> y / ?u" by (simp add: divide_right_mono)
  from rhe_mono [OF this] have "real_of_int (round_half_even (x / ?u)) \<le> of_int (round_half_even (y / ?u))"
    by (simp only: of_int_le_iff)
  with u have "?u * of_int (round_half_even (x / ?u)) \<le> ?u * of_int (round_half_even (y / ?u))"
    by (intro mult_left_mono) simp_all
  then show ?thesis by (simp add: round_to_format_def Let_def True)
next
  case False
  from x xy have y: "0 < y" by simp
  from binade_mono [OF x xy, of emin] False have lt: "binade emin x + 1 \<le> binade emin y" by simp
  with binade_ge [of emin x] have big: "emin < binade emin y" by simp
  have "round_to_format p emin x \<le> 2 powi (binade emin x + 1)"
    by (rule round_pos_range(2) [OF p x])
  also have "\<dots> \<le> 2 powi (binade emin y)"
    using lt by (intro power_int_increasing) simp_all
  also have "\<dots> \<le> round_to_format p emin y"
    by (rule round_pos_range(3) [OF p y big])
  finally show ?thesis .
qed

lemma round_nonneg: "1 \<le> p \<Longrightarrow> 0 \<le> x \<Longrightarrow> 0 \<le> round_to_format p emin x"
  by (cases "x = 0") (simp_all add: round_pos_range(1))

lemma round_mono:
  assumes p: "1 \<le> p" and xy: "x \<le> y"
  shows "round_to_format p emin x \<le> round_to_format p emin y"
proof -
  consider "0 < x" | "x \<le> 0" "0 \<le> y" | "y < 0" using xy by linarith
  then show ?thesis
  proof cases
    case 1
    then show ?thesis by (rule round_mono_pos [OF p _ xy])
  next
    case 2
    from round_nonneg [OF p, of "- x" emin] 2(1) have "round_to_format p emin x \<le> 0"
      by (simp add: round_neg)
    also have "0 \<le> round_to_format p emin y" by (rule round_nonneg [OF p 2(2)])
    finally show ?thesis .
  next
    case 3
    then have "0 < - y" "- y \<le> - x" using xy by simp_all
    from round_mono_pos [OF p this, of emin] show ?thesis by (simp add: round_neg)
  qed
qed


lemma pow2_split_top: "(2::real) powi (e + 1) = 2 powi (e - int p + 1) * of_int (2 ^ p)"
proof -
  have "(2::real) powi (e + 1) = 2 powi ((e - int p + 1) + int p)" by simp
  also have "\<dots> = 2 powi (e - int p + 1) * 2 powi (int p)" by (subst power_int_add) simp_all
  finally show ?thesis by simp
qed

lemma pow2_split_bot:
  assumes "1 \<le> p"
  shows "(2::real) powi e = 2 powi (e - int p + 1) * of_int (2 ^ (p - 1))"
proof -
  have "(2::real) powi e = 2 powi ((e - int p + 1) + int (p - 1))" using assms by simp
  also have "\<dots> = 2 powi (e - int p + 1) * 2 powi (int (p - 1))" by (subst power_int_add) simp_all
  finally show ?thesis by simp
qed

lemma mantissa_bounds:
  fixes emin :: int
  assumes p: "1 \<le> p" and x: "0 < x"
  defines "m \<equiv> round_half_even (x / 2 powi (binade emin x - int p + 1))"
  shows "0 \<le> m" and "m \<le> 2 ^ p" and "emin < binade emin x \<Longrightarrow> 2 ^ (p - 1) \<le> m"
proof -
  let ?e = "binade emin x"
  let ?u = "(2::real) powi (?e - int p + 1)"
  have u: "0 < ?u" by simp
  have "0 \<le> x / ?u" using x u by simp
  from rhe_mono [OF this] show "0 \<le> m" by (simp add: m_def)
  have "x / ?u \<le> of_int (2 ^ p)"
  proof -
    have "x \<le> 2 powi (?e + 1)" using binade_upper [of x emin] x by simp
    then have "x / ?u \<le> 2 powi (?e + 1) / ?u" using u by (simp add: divide_right_mono)
    also have "\<dots> = of_int (2 ^ p)" using u by (simp add: pow2_split_top [of ?e p])
    finally show ?thesis .
  qed
  from rhe_mono [OF this] show "m \<le> 2 ^ p" unfolding m_def by (simp only: rhe_int)
  assume big: "emin < ?e"
  have "of_int (2 ^ (p - 1)) \<le> x / ?u"
  proof -
    have "2 powi ?e \<le> x" using binade_lower [of x emin] x big by simp
    then have "2 powi ?e / ?u \<le> x / ?u" using u by (simp add: divide_right_mono)
    moreover have "2 powi ?e / ?u = of_int (2 ^ (p - 1))"
      using u by (simp add: pow2_split_bot [OF p, of ?e])
    ultimately show ?thesis by simp
  qed
  from rhe_mono [OF this] show "2 ^ (p - 1) \<le> m" unfolding m_def by (simp only: rhe_int)
qed

lemma round_representable:
  assumes "y = 2 powi (binade emin y - int p + 1) * of_int k"
  shows "round_to_format p emin y = y"
proof -
  let ?u = "(2::real) powi (binade emin y - int p + 1)"
  have u: "?u \<noteq> 0" by simp
  from assms have "y / ?u = of_int k" using u by (metis nonzero_mult_div_cancel_left)
  then have "round_half_even (y / ?u) = k" by (simp only: rhe_int)
  then show ?thesis using assms by (simp add: round_to_format_def Let_def)
qed

lemma round_idem_pos:
  assumes p: "1 \<le> p" and x: "0 < x"
  shows "round_to_format p emin (round_to_format p emin x) = round_to_format p emin x"
proof -
  let ?e = "binade emin x"
  let ?u = "(2::real) powi (?e - int p + 1)"
  let ?m = "round_half_even (x / ?u)"
  let ?y = "round_to_format p emin x"
  have u: "0 < ?u" by simp
  have y: "?y = ?u * of_int ?m" by (simp add: round_to_format_def Let_def)
  note mb = mantissa_bounds [OF p x, of emin]
  consider "?m = 0" | "0 < ?m" "?m < 2 ^ p" | "?m = 2 ^ p" using mb(1,2) by linarith
  then show ?thesis
  proof cases
    case 1
    then have "?y = 0" by (simp add: y)
    then show ?thesis by simp
  next
    case 2
    have ypos: "0 < ?y" using u 2(1) by (simp add: y)
    have "real_of_int ?m < of_int (2 ^ p)" using 2(2) by (simp only: of_int_less_iff)
    then have "?u * of_int ?m < ?u * of_int (2 ^ p)" using u by (simp only: mult_less_cancel_left_pos)
    then have ytop: "?y < 2 powi (?e + 1)" by (simp only: y pow2_split_top [of ?e p])
    have ybot: "emin < ?e \<longrightarrow> 2 powi ?e \<le> ?y"
    proof
      assume "emin < ?e"
      from mb(3) [OF this] have "real_of_int (2 ^ (p - 1)) \<le> of_int ?m" by (simp only: of_int_le_iff)
      then have "?u * of_int (2 ^ (p - 1)) \<le> ?u * of_int ?m" using u by (intro mult_left_mono) simp_all
      then show "2 powi ?e \<le> ?y" by (simp only: y pow2_split_bot [OF p, of ?e])
    qed
    have be: "binade emin ?y = ?e"
      by (rule binade_eqI [OF ypos ytop binade_ge ybot])
    show ?thesis
      by (rule round_representable [of _ emin p ?m]) (simp only: y be [unfolded y])
  next
    case 3
    have yv: "?y = 2 powi (?e + 1)" by (simp only: y 3 pow2_split_top [of ?e p])
    have be: "binade emin (2 powi (?e + 1)) = ?e + 1"
    proof (rule binade_eqI)
      show "(0::real) < 2 powi (?e + 1)" by simp
      show "(2::real) powi (?e + 1) < 2 powi (?e + 1 + 1)"
        by (intro power_int_strict_increasing) simp_all
      show "emin \<le> ?e + 1" using binade_ge [of emin x] by simp
      show "emin < ?e + 1 \<longrightarrow> (2::real) powi (?e + 1) \<le> 2 powi (?e + 1)" by simp
    qed
    have "round_to_format p emin (2 powi (?e + 1)) = 2 powi (?e + 1)"
      by (rule round_representable [of _ emin p "2 ^ (p - 1)"])
         (subst be, rule pow2_split_bot [OF p])
    then show ?thesis by (simp only: yv)
  qed
qed

lemma round_idem:
  assumes p: "1 \<le> p"
  shows "round_to_format p emin (round_to_format p emin x) = round_to_format p emin x"
proof -
  consider "0 < x" | "x = 0" | "x < 0" by linarith
  then show ?thesis
  proof cases
    case 1
    then show ?thesis by (rule round_idem_pos [OF p])
  next
    case 2
    then show ?thesis by simp
  next
    case 3
    then have "0 < - x" by simp
    from round_idem_pos [OF p this, of emin] show ?thesis by (simp add: round_neg)
  qed
qed


lemma round_eval:
  assumes "2 powi e \<le> \<bar>x\<bar>" "\<bar>x\<bar> < 2 powi (e + 1)" "emin \<le> e"
  shows "round_to_format p emin x =
           2 powi (e - int p + 1) * of_int (round_half_even (x / 2 powi (e - int p + 1)))"
proof -
  have "\<lfloor>log 2 \<bar>x\<bar>\<rfloor> = e" using assms(1,2) by (rule floor_log2_eqI)
  with assms(3) have "binade emin x = e" by (simp add: binade_def)
  then show ?thesis by (simp add: round_to_format_def Let_def)
qed

subsection \<open>Weighted selection\<close>

lemma unit_draw_bounds: "0 \<le> unit_draw w \<and> unit_draw w < 1"
proof -
  have "unat w < 2 ^ LENGTH(32)" by (rule unsigned_less)
  then have "unat w < 4294967296" by simp
  then have "real (unat w) < 4294967296" by linarith
  moreover have "0 \<le> real (unat w)" by (rule of_nat_0_le_iff)
  ultimately show ?thesis unfolding unit_draw_def by (simp only: divide_nonneg_nonneg divide_less_eq) simp
qed

lemma totalWeight_loop_foldl:
  "totalWeight_loop ts acc = foldl (\<lambda>a w. fp_add round32 a (Fin w)) acc (map weight ts)"
  by (induction ts arbitrary: acc) auto

lemma totalWeight_loop_sum: "totalWeight_loop ts (Fin 0) = float_sum (map weight ts)"
  by (simp add: totalWeight_loop_foldl float_sum_def)

lemma roll_loop_Some:
  "roll_loop ts roll cum = Some t \<Longrightarrow>
     \<exists>i<length ts. t = ts ! i
       \<and> fp_le roll (totalWeight_loop (take (Suc i) ts) cum)
       \<and> (\<forall>j<i. \<not> fp_le roll (totalWeight_loop (take (Suc j) ts) cum))"
proof (induction ts arbitrary: cum)
  case Nil
  then show ?case by simp
next
  case (Cons x xs)
  let ?c = "fp_add round32 cum (Fin (weight x))"
  show ?case
  proof (cases "fp_le roll ?c")
    case True
    with Cons.prems have "t = x" by simp
    with True show ?thesis by (intro exI [of _ 0]) simp
  next
    case False
    with Cons.prems have "roll_loop xs roll ?c = Some t" by simp
    from Cons.IH [OF this] obtain i where i: "i < length xs" "t = xs ! i"
      "fp_le roll (totalWeight_loop (take (Suc i) xs) ?c)"
      "\<forall>j<i. \<not> fp_le roll (totalWeight_loop (take (Suc j) xs) ?c)"
      by blast
    have "\<forall>j<Suc i. \<not> fp_le roll (totalWeight_loop (take (Suc j) (x # xs)) cum)"
    proof (intro allI impI)
      fix j assume "j < Suc i"
      then show "\<not> fp_le roll (totalWeight_loop (take (Suc j) (x # xs)) cum)"
        using False i(4) by (cases j) auto
    qed
    with i(1-3) show ?thesis
      by (intro exI [of _ "Suc i"]) simp
  qed
qed

lemma roll_loop_None:
  "roll_loop ts roll cum = None \<Longrightarrow> ts \<noteq> [] \<Longrightarrow> \<not> fp_le roll (totalWeight_loop ts cum)"
proof (induction ts arbitrary: cum)
  case Nil
  then show ?case by simp
next
  case (Cons x xs)
  let ?c = "fp_add round32 cum (Fin (weight x))"
  from Cons.prems(1) have nx: "\<not> fp_le roll ?c"
    and rest: "roll_loop xs roll ?c = None"
    by (auto split: if_splits)
  show ?case
  proof (cases "xs = []")
    case True
    with nx show ?thesis by simp
  next
    case False
    from Cons.IH [OF rest False] show ?thesis by simp
  qed
qed

lemma fp_round_Fin:
  "fp_round p emin emax x = Fin T \<longleftrightarrow>
     T = round_to_format p emin x \<and> \<bar>round_to_format p emin x\<bar> < 2 powi (emax + 1)"
  by (auto simp: fp_round_def Let_def)

text \<open>A finite binary32 sum of a non-empty list is a binary32 number.\<close>

lemma fp_add_Fin:
  "fp_add round32 a (Fin w) = Fin T \<Longrightarrow>
     round_to_format 24 (- 126) T = T \<and> \<bar>T\<bar> < 2 powi 128"
proof (cases a)
  case (Fin x)
  assume "fp_add round32 a (Fin w) = Fin T"
  with Fin have "fp_round 24 (- 126) 127 (x + w) = Fin T" by (simp add: round32_def)
  then have T: "T = round_to_format 24 (- 126) (x + w)" and b: "\<bar>T\<bar> < 2 powi 128"
    by (simp_all add: fp_round_Fin)
  from T have "round_to_format 24 (- 126) T = T" by (simp add: round_idem)
  with b show ?thesis by simp
qed simp_all

lemma float_sum_Fin:
  assumes "ws \<noteq> []" "float_sum ws = Fin T"
  shows "round_to_format 24 (- 126) T = T \<and> \<bar>T\<bar> < 2 powi 128"
proof -
  from assms(1) obtain ws' w where ws: "ws = ws' @ [w]" by (metis rev_exhaust)
  with assms(2) have "fp_add round32 (float_sum ws') (Fin w) = Fin T"
    by (simp add: float_sum_def)
  then show ?thesis by (rule fp_add_Fin)
qed

lemma round32_representable:
  "round_to_format 24 (- 126) T = T \<Longrightarrow> \<bar>T\<bar> < 2 powi 128 \<Longrightarrow> round32 T = Fin T"
  by (simp add: round32_def fp_round_def)

text \<open>The roll for a finite positive total: a binary32 number between 0 and the total.\<close>

lemma roll_range:
  fixes w :: "32 word"
  assumes rep: "round_to_format 24 (- 126) T = T" and fin: "\<bar>T\<bar> < 2 powi 128" and pos: "0 < T"
  defines "r \<equiv> round_to_format 24 (- 126) (unit_draw w * T)"
  shows "fp_add round32 (fp_mul round32 (Fin (unit_draw w)) (fp_sub round32 (Fin T) (Fin 0))) (Fin 0)
           = Fin r"
    and "0 \<le> r" and "r \<le> T"
proof -
  have u: "0 \<le> unit_draw w" "unit_draw w < 1" using unit_draw_bounds by auto
  have lo: "0 \<le> unit_draw w * T" using u(1) pos by simp
  have hi: "unit_draw w * T \<le> T" using u(2) pos by (simp add: mult_left_le_one_le)
  from round_nonneg [OF _ lo, of 24 "- 126"] show r0: "0 \<le> r" by (simp add: r_def)
  from round_mono [OF _ hi, of 24 "- 126"] rep show rT: "r \<le> T" by (simp add: r_def)
  have sub: "fp_sub round32 (Fin T) (Fin 0) = Fin T"
    by (simp add: fp_sub_def round32_representable [OF rep fin])
  have rfin: "\<bar>r\<bar> < 2 powi 128" using r0 rT fin pos by simp
  have mul: "round32 (unit_draw w * T) = Fin r"
    using rfin by (simp add: round32_def fp_round_def r_def)
  have rrep: "round_to_format 24 (- 126) r = r" by (simp add: r_def round_idem)
  show "fp_add round32 (fp_mul round32 (Fin (unit_draw w)) (fp_sub round32 (Fin T) (Fin 0))) (Fin 0)
           = Fin r"
    by (simp add: sub mul round32_representable [OF rrep rfin])
qed

lemma Pick_Nil: "PickTemplateWeighted [] g = (None, g)"
  by (simp add: PickTemplateWeighted_def)

lemma Pick_degenerate:
  "cands \<noteq> [] \<Longrightarrow> fp_le (float_sum (map weight cands)) (Fin 0) \<Longrightarrow>
     PickTemplateWeighted cands g = (Some (hd cands), g)"
  by (simp add: PickTemplateWeighted_def totalWeight_loop_sum hd_conv_nth)

text \<open>The path with a draw: the generator advances by one output in every case.\<close>

lemma Pick_draw:
  assumes ne: "cands \<noteq> []" and pos: "\<not> fp_le (float_sum (map weight cands)) (Fin 0)"
  shows "PickTemplateWeighted cands g =
     (case roll_loop cands
             (fp_add round32
                (fp_mul round32 (Fin (unit_draw (shd g)))
                   (fp_sub round32 (float_sum (map weight cands)) (Fin 0)))
                (Fin 0))
             (Fin 0) of
        Some t \<Rightarrow> Some t
      | None \<Rightarrow> Some (last cands),
      stl g)"
  using ne pos
  by (simp add: PickTemplateWeighted_def totalWeight_loop_sum RandomFloat_def Let_def
      split: option.splits)

lemma Pick_roll:
  assumes ne: "cands \<noteq> []" and pos: "\<not> fp_le (float_sum (map weight cands)) (Fin 0)"
    and le: "fp_le r (float_sum (map weight cands))"
    and r: "r = fp_add round32
                (fp_mul round32 (Fin (unit_draw (shd g)))
                   (fp_sub round32 (float_sum (map weight cands)) (Fin 0)))
                (Fin 0)"
  shows "\<exists>i<length cands. PickTemplateWeighted cands g = (Some (cands ! i), stl g)
           \<and> fp_le r (float_sum (map weight (take (Suc i) cands)))
           \<and> (\<forall>j<i. \<not> fp_le r (float_sum (map weight (take (Suc j) cands))))"
proof -
  from roll_loop_None [of cands r "Fin 0"] ne le
  obtain t where t: "roll_loop cands r (Fin 0) = Some t"
    by (cases "roll_loop cands r (Fin 0)") (auto simp: totalWeight_loop_sum)
  from roll_loop_Some [OF t] obtain i where i: "i < length cands" "t = cands ! i"
    "fp_le r (float_sum (map weight (take (Suc i) cands)))"
    "\<forall>j<i. \<not> fp_le r (float_sum (map weight (take (Suc j) cands)))"
    by (auto simp: totalWeight_loop_sum)
  have "PickTemplateWeighted cands g = (Some t, stl g)"
    using Pick_draw [OF ne pos, of g] t by (simp add: r [symmetric])
  with i show ?thesis by blast
qed

lemma Pick_member:
  assumes "cands \<noteq> []"
  shows "\<exists>c\<in>set cands. \<exists>g'. PickTemplateWeighted cands g = (Some c, g')"
proof (cases "fp_le (float_sum (map weight cands)) (Fin 0)")
  case True
  with assms show ?thesis by (auto simp: Pick_degenerate)
next
  case False
  let ?r = "fp_add round32
                (fp_mul round32 (Fin (unit_draw (shd g)))
                   (fp_sub round32 (float_sum (map weight cands)) (Fin 0)))
                (Fin 0)"
  show ?thesis
  proof (cases "roll_loop cands ?r (Fin 0)")
    case None
    with Pick_draw [OF assms False, of g] assms show ?thesis by auto
  next
    case (Some t)
    from roll_loop_Some [OF Some] have "t \<in> set cands" by auto
    with Pick_draw [OF assms False, of g] Some show ?thesis by auto
  qed
qed

text \<open>
  C4, as amended. \<open>PickTemplateWeighted\<close> returns no selection iff the candidate list
  is empty. The sum of the weights and the cumulative weights are the ones the code
  computes, accumulated in binary32 in list order (\<open>float_sum\<close>). For a non-empty list:
  if that sum is \<open>\<le> 0\<close> the first candidate is returned, without a draw; otherwise
  one draw is made, and when the roll \<open>r\<close> is \<open>\<le>\<close> the sum, the result is the first
  candidate in list order whose cumulative weight is \<open>\<ge> r\<close>. For a finite sum the
  roll always lies between 0 and the sum. In every non-empty case the result is an
  element of the candidate list.
\<close>

theorem weighted_selector:
  "(fst (PickTemplateWeighted cands g) = None \<longleftrightarrow> cands = [])
   \<and> (cands \<noteq> [] \<and> fp_le (float_sum (map weight cands)) (Fin 0)
        \<longrightarrow> PickTemplateWeighted cands g = (Some (hd cands), g))
   \<and> (cands \<noteq> [] \<and> \<not> fp_le (float_sum (map weight cands)) (Fin 0)
        \<longrightarrow> (\<exists>r. r = fp_add round32
                        (fp_mul round32 (Fin (unit_draw (shd g)))
                           (fp_sub round32 (float_sum (map weight cands)) (Fin 0)))
                        (Fin 0)
              \<and> snd (PickTemplateWeighted cands g) = stl g
              \<and> (fp_le r (float_sum (map weight cands))
                   \<longrightarrow> (\<exists>i<length cands.
                          fst (PickTemplateWeighted cands g) = Some (cands ! i)
                          \<and> fp_le r (float_sum (map weight (take (Suc i) cands)))
                          \<and> (\<forall>j<i. \<not> fp_le r (float_sum (map weight (take (Suc j) cands))))))
              \<and> (\<forall>T. float_sum (map weight cands) = Fin T
                   \<longrightarrow> fp_le (Fin 0) r \<and> fp_le r (Fin T))))
   \<and> (cands \<noteq> [] \<longrightarrow> (\<exists>c\<in>set cands. fst (PickTemplateWeighted cands g) = Some c))"
proof (intro conjI impI)
  show "fst (PickTemplateWeighted cands g) = None \<longleftrightarrow> cands = []"
  proof (cases "cands = []")
    case True
    then show ?thesis by (simp add: Pick_Nil)
  next
    case False
    from Pick_member [OF False, of g] False show ?thesis by auto
  qed
next
  assume "cands \<noteq> [] \<and> fp_le (float_sum (map weight cands)) (Fin 0)"
  then show "PickTemplateWeighted cands g = (Some (hd cands), g)"
    by (simp add: Pick_degenerate)
next
  assume a: "cands \<noteq> [] \<and> \<not> fp_le (float_sum (map weight cands)) (Fin 0)"
  then have ne: "cands \<noteq> []" and pos: "\<not> fp_le (float_sum (map weight cands)) (Fin 0)" by auto
  let ?total = "float_sum (map weight cands)"
  let ?r = "fp_add round32 (fp_mul round32 (Fin (unit_draw (shd g))) (fp_sub round32 ?total (Fin 0)))
              (Fin 0)"
  have adv: "snd (PickTemplateWeighted cands g) = stl g"
    by (simp add: Pick_draw [OF ne pos])
  have first: "\<exists>i<length cands.
                  fst (PickTemplateWeighted cands g) = Some (cands ! i)
                  \<and> fp_le ?r (float_sum (map weight (take (Suc i) cands)))
                  \<and> (\<forall>j<i. \<not> fp_le ?r (float_sum (map weight (take (Suc j) cands))))"
    if "fp_le ?r ?total"
    using Pick_roll [OF ne pos that refl] by auto
  have range: "fp_le (Fin 0) ?r \<and> fp_le ?r (Fin T)" if T: "?total = Fin T" for T
  proof -
    from ne have "map weight cands \<noteq> []" by simp
    from float_sum_Fin [OF this T]
    have rep: "round_to_format 24 (- 126) T = T" and fin: "\<bar>T\<bar> < 2 powi 128" by auto
    from pos T have Tpos: "0 < T" by simp
    from roll_range [OF rep fin Tpos, of "shd g"] show ?thesis by (simp add: T)
  qed
  from adv first range
  show "\<exists>r. r = ?r
              \<and> snd (PickTemplateWeighted cands g) = stl g
              \<and> (fp_le r ?total
                   \<longrightarrow> (\<exists>i<length cands.
                          fst (PickTemplateWeighted cands g) = Some (cands ! i)
                          \<and> fp_le r (float_sum (map weight (take (Suc i) cands)))
                          \<and> (\<forall>j<i. \<not> fp_le r (float_sum (map weight (take (Suc j) cands))))))
              \<and> (\<forall>T. ?total = Fin T \<longrightarrow> fp_le (Fin 0) r \<and> fp_le r (Fin T))"
    by blast
next
  assume "cands \<noteq> []"
  from Pick_member [OF this, of g]
  show "\<exists>c\<in>set cands. fst (PickTemplateWeighted cands g) = Some c"
    by auto
qed

lemma round32_values:
  "round32 0 = Fin 0"
  "round32 1 = Fin 1"
  "round32 2 = Fin 2"
  "round32 3 = Fin 3"
  "round32 4 = Fin 4"
  "round32 (- 100000000) = Fin (- 100000000)"
  "round32 (- 99999999) = Fin (- 100000000)"
proof -
  show "round32 0 = Fin 0" by (simp add: round32_def fp_round_def)
  show "round32 1 = Fin 1"
    by (simp add: round32_def fp_round_def round_eval [where e = 0] round_half_even_def)
  show "round32 2 = Fin 2"
    by (simp add: round32_def fp_round_def round_eval [where e = 1] round_half_even_def)
  show "round32 3 = Fin 3"
    by (simp add: round32_def fp_round_def round_eval [where e = 1] round_half_even_def)
  show "round32 4 = Fin 4"
    by (simp add: round32_def fp_round_def round_eval [where e = 2] round_half_even_def)
  show "round32 (- 100000000) = Fin (- 100000000)"
    by (simp add: round32_def fp_round_def round_eval [where e = 26] round_half_even_def)
  show "round32 (- 99999999) = Fin (- 100000000)"
    by (simp add: round32_def fp_round_def round_eval [where e = 26] round_half_even_def)
qed

theorem weighted_selector_witness:
  "[template_t2, template_t5] \<noteq> []
   \<and> float_sum (map weight [template_t2, template_t5]) = Fin 4
   \<and> \<not> fp_le (float_sum (map weight [template_t2, template_t5])) (Fin 0)
   \<and> PickTemplateWeighted [template_t2, template_t5] (0x80000000 ## sconst 0)
       = (Some ([template_t2, template_t5] ! 1), sconst 0)
   \<and> fp_le (float_sum (map weight [muted_template])) (Fin 0)
   \<and> PickTemplateWeighted [muted_template] (sconst 0) = (Some muted_template, sconst 0)"
  using weighted_selector [of "[template_t2, template_t5]" "0x80000000 ## sconst 0"]
    weighted_selector [of "[muted_template]" "sconst 0"]
  by (simp add: PickTemplateWeighted_def RandomFloat_def unit_draw_def float_sum_def fp_sub_def
      round32_values template_t2_def template_t5_def muted_template_def
      default_DialogueTemplate_def)

text \<open>
  C4 as stated fails: the weights \<open>-10^8\<close>, \<open>1\<close>, \<open>10^8\<close> have the sum 1, which is
  positive, and the first candidate's cumulative weight is negative, below every roll
  in \<open>[0, 1]\<close>; yet the binary32 sum is 0 and the first candidate is returned, without
  a draw.
\<close>

theorem weighted_selector_counterexample:
  "sum_list (map weight cancelling_candidates) = 1
   \<and> weight (cancelling_candidates ! 0) < 0
   \<and> float_sum (map weight cancelling_candidates) = Fin 0
   \<and> PickTemplateWeighted cancelling_candidates (0x80000000 ## sconst 0)
       = (Some (cancelling_candidates ! 0), 0x80000000 ## sconst 0)"
  by (simp add: PickTemplateWeighted_def float_sum_def round32_values cancelling_candidates_def)

subsection \<open>Token replacement\<close>

lemma string_find_Some:
  "string_find tx token pos = Some p \<Longrightarrow>
     pos \<le> p \<and> p + length token \<le> length tx
     \<and> take (length token) (drop p tx) = token
     \<and> (\<forall>q. pos \<le> q \<and> q < p \<longrightarrow> take (length token) (drop q tx) \<noteq> token)"
proof (induction tx token pos rule: string_find.induct)
  case (1 tx token pos)
  show ?case
  proof (cases "length tx < pos + length token")
    case True
    with "1.prems" show ?thesis by (simp add: string_find.simps)
  next
    case False
    note inb = this
    show ?thesis
    proof (cases "take (length token) (drop pos tx) = token")
      case True
      with inb "1.prems" have "p = pos" by (simp add: string_find.simps)
      with True inb show ?thesis by auto
    next
      case False
      with inb "1.prems" have "string_find tx token (Suc pos) = Some p"
        by (simp add: string_find.simps)
      from "1.IH" [OF inb False this] have ih: "Suc pos \<le> p" "p + length token \<le> length tx"
        "take (length token) (drop p tx) = token"
        "\<forall>q. Suc pos \<le> q \<and> q < p \<longrightarrow> take (length token) (drop q tx) \<noteq> token"
        by auto
      have "take (length token) (drop q tx) \<noteq> token" if "pos \<le> q" "q < p" for q
      proof (cases "q = pos")
        case True
        with False show ?thesis by simp
      next
        case False
        with that have "Suc pos \<le> q" by simp
        with ih(4) that show ?thesis by blast
      qed
      with ih show ?thesis by auto
    qed
  qed
qed

lemma string_find_None:
  "string_find tx token pos = None \<Longrightarrow> pos \<le> q \<Longrightarrow> q + length token \<le> length tx \<Longrightarrow>
     take (length token) (drop q tx) \<noteq> token"
proof (induction tx token pos rule: string_find.induct)
  case (1 tx token pos)
  from "1.prems"(2,3) have inb: "\<not> length tx < pos + length token" by simp
  with "1.prems"(1) have nopos: "take (length token) (drop pos tx) \<noteq> token"
    by (auto simp: string_find.simps [of tx token pos] split: if_splits)
  with inb "1.prems"(1) have rest: "string_find tx token (Suc pos) = None"
    by (simp add: string_find.simps [of tx token pos])
  show ?case
  proof (cases "q = pos")
    case True
    with nopos show ?thesis by simp
  next
    case False
    with "1.prems"(2) have "Suc pos \<le> q" by simp
    from "1.IH" [OF inb nopos rest this "1.prems"(3)] show ?thesis .
  qed
qed

lemma prefix_iff_take: "prefix token xs \<longleftrightarrow> take (length token) xs = token"
  by (metis prefix_def append_eq_conv_conj take_is_prefix)

lemma replace_no_occurrence:
  "(\<And>q. q + length token \<le> length xs \<Longrightarrow> take (length token) (drop q xs) \<noteq> token) \<Longrightarrow>
     replace_every_occurrence token val xs = xs"
proof (induction xs)
  case Nil
  then show ?case by simp
next
  case (Cons c cs)
  have np: "\<not> (token \<noteq> [] \<and> prefix token (c # cs))"
  proof
    assume a: "token \<noteq> [] \<and> prefix token (c # cs)"
    then have "length token \<le> length (c # cs)" by (auto dest: prefix_length_le)
    with Cons.prems [of 0] a show False by (simp add: prefix_iff_take)
  qed
  have "replace_every_occurrence token val cs = cs"
  proof (rule Cons.IH)
    fix q assume "q + length token \<le> length cs"
    with Cons.prems [of "Suc q"] show "take (length token) (drop q cs) \<noteq> token" by simp
  qed
  with np show ?case by auto
qed

lemma replace_first_occurrence:
  "token \<noteq> [] \<Longrightarrow> k + length token \<le> length xs \<Longrightarrow>
   take (length token) (drop k xs) = token \<Longrightarrow>
   (\<And>q. q < k \<Longrightarrow> take (length token) (drop q xs) \<noteq> token) \<Longrightarrow>
     replace_every_occurrence token val xs
       = take k xs @ val @ replace_every_occurrence token val (drop (k + length token) xs)"
proof (induction k arbitrary: xs)
  case 0
  then obtain c cs where xs: "xs = c # cs" by (cases xs) auto
  from 0 have "prefix token xs" by (simp add: prefix_iff_take)
  with 0 xs show ?case by simp
next
  case (Suc k)
  then obtain c cs where xs: "xs = c # cs" by (cases xs) auto
  from Suc.prems(4) [of 0] have "\<not> prefix token xs" by (simp add: prefix_iff_take)
  moreover have "replace_every_occurrence token val cs
       = take k cs @ val @ replace_every_occurrence token val (drop (k + length token) cs)"
  proof (rule Suc.IH [OF Suc.prems(1)])
    show "k + length token \<le> length cs" using Suc.prems(2) xs by simp
    show "take (length token) (drop k cs) = token" using Suc.prems(3) xs by simp
    fix q assume "q < k"
    with Suc.prems(4) [of "Suc q"] xs show "take (length token) (drop q cs) \<noteq> token" by simp
  qed
  ultimately show ?case using xs by simp
qed

lemma ReplaceToken_loop_eq:
  "token \<noteq> [] \<Longrightarrow> pos \<le> length tx \<Longrightarrow>
     ReplaceToken_loop tx token val pos
       = Some (take pos tx @ replace_every_occurrence token val (drop pos tx))"
proof (induction "length tx - pos" arbitrary: tx pos rule: less_induct)
  case less
  show ?case
  proof (cases "string_find tx token pos")
    case None
    have "replace_every_occurrence token val (drop pos tx) = drop pos tx"
    proof (rule replace_no_occurrence)
      fix q assume "q + length token \<le> length (drop pos tx)"
      with less.prems(2) have "pos + q + length token \<le> length tx" by simp
      from string_find_None [OF None _ this]
      show "take (length token) (drop q (drop pos tx)) \<noteq> token" by (simp add: add.commute)
    qed
    with None show ?thesis by (subst ReplaceToken_loop.simps) simp
  next
    case (Some p)
    from string_find_Some [OF Some] have p: "pos \<le> p" "p + length token \<le> length tx"
      "take (length token) (drop p tx) = token"
      "\<forall>q. pos \<le> q \<and> q < p \<longrightarrow> take (length token) (drop q tx) \<noteq> token"
      by auto
    define tx' where "tx' = take p tx @ val @ drop (p + length token) tx"
    have len': "length tx' = p + length val + (length tx - (p + length token))"
      using p(2) by (simp add: tx'_def)
    have meas: "length tx' - (p + length val) < length tx - pos"
      using p(1,2) less.prems(1) by (cases token) (auto simp: len')
    have inb: "p + length val \<le> length tx'" by (simp add: len')
    have tk: "take (p + length val) tx' = take p tx @ val"
      using p(2) by (simp add: tx'_def)
    have dr: "drop (p + length val) tx' = drop (p + length token) tx"
      using p(2) by (simp add: tx'_def)
    from less.hyps [OF meas less.prems(1) inb]
    have ih: "ReplaceToken_loop tx' token val (p + length val)
        = Some (take p tx @ val @ replace_every_occurrence token val (drop (p + length token) tx))"
      by (simp add: tk dr)
    have first: "replace_every_occurrence token val (drop pos tx)
        = take (p - pos) (drop pos tx) @ val
          @ replace_every_occurrence token val (drop (p - pos + length token) (drop pos tx))"
    proof (rule replace_first_occurrence [OF less.prems(1)])
      show "p - pos + length token \<le> length (drop pos tx)" using p(1,2) by simp
      show "take (length token) (drop (p - pos) (drop pos tx)) = token"
        using p(1,3) by simp
      fix q assume "q < p - pos"
      with p(4) have "take (length token) (drop (pos + q) tx) \<noteq> token" by simp
      then show "take (length token) (drop q (drop pos tx)) \<noteq> token"
        by (simp add: add.commute)
    qed
    have t1: "take pos tx @ take (p - pos) (drop pos tx) = take p tx"
      using p(1) by (metis le_add_diff_inverse take_add)
    have t2: "drop (p - pos + length token) (drop pos tx) = drop (p + length token) tx"
      using p(1) by simp
    have "take pos tx @ replace_every_occurrence token val (drop pos tx)
        = take p tx @ val @ replace_every_occurrence token val (drop (p + length token) tx)"
      unfolding first t2 using t1 by (metis append.assoc)
    with ih Some show ?thesis
      by (subst ReplaceToken_loop.simps) (simp add: tx'_def)
  qed
qed

lemma ReplaceToken_eq:
  "token \<noteq> [] \<Longrightarrow> ReplaceToken tx token val = Some (replace_every_occurrence token val tx)"
  using ReplaceToken_loop_eq [of token 0 tx val] by (simp add: ReplaceToken_def)

lemma replace_single: "token \<noteq> [] \<Longrightarrow> replace_every_occurrence token val token = val"
  by (cases token) auto


lemma ReplaceToken_absent:
  assumes "\<not> sublist token tx"
  shows "ReplaceToken tx token val = Some tx"
proof (cases "token = []")
  case True
  then show ?thesis by (simp add: ReplaceToken_def)
next
  case False
  have "replace_every_occurrence token val tx = tx"
  proof (rule replace_no_occurrence)
    fix q assume "q + length token \<le> length tx"
    show "take (length token) (drop q tx) \<noteq> token"
    proof
      assume "take (length token) (drop q tx) = token"
      then have "tx = take q tx @ token @ drop (length token) (drop q tx)"
        by (metis append_take_drop_id)
      then have "sublist token tx" unfolding sublist_def by blast
      with assms show False by contradiction
    qed
  qed
  with False show ?thesis by (simp add: ReplaceToken_eq)
qed

lemma no_brace_no_token:
  "CHR ''{'' \<notin> set tx \<Longrightarrow> token \<noteq> [] \<Longrightarrow> hd token = CHR ''{'' \<Longrightarrow> \<not> sublist token tx"
  by (metis hd_in_set set_mono_sublist subsetD)

lemma substitute_tokens_no_brace:
  assumes "CHR ''{'' \<notin> set tx"
  shows "substitute_tokens tx ctx profile = Some tx"
  unfolding substitute_tokens_def
  by (simp add: ReplaceToken_absent no_brace_no_token [OF assms])

text \<open>
  C6. \<open>ReplaceToken\<close> returns for every text, token and value, also when the value
  contains the token. For a non-empty token, a text equal to the token yields exactly
  the value, one expansion: the scan resumes after the inserted value. And every
  occurrence of the token in the original text, read from left to right, is replaced:
  the result is \<open>replace_every_occurrence token val text\<close>. An empty token, which
  has no occurrence to replace, is returned from at once with the text as it is.
\<close>

theorem ReplaceToken_terminates:
  "(\<exists>r. ReplaceToken tx token val = Some r)
   \<and> (token \<noteq> [] \<longrightarrow> ReplaceToken token token val = Some val)
   \<and> (token \<noteq> [] \<longrightarrow> ReplaceToken tx token val = Some (replace_every_occurrence token val tx))
   \<and> ReplaceToken tx [] val = Some tx"
proof (intro conjI impI)
  show "\<exists>r. ReplaceToken tx token val = Some r"
  proof (cases "token = []")
    case True
    then show ?thesis by (simp add: ReplaceToken_def)
  next
    case False
    then show ?thesis by (simp add: ReplaceToken_eq)
  qed
next
  assume "token \<noteq> []"
  then show "ReplaceToken token token val = Some val"
    by (simp add: ReplaceToken_eq replace_single)
next
  assume "token \<noteq> []"
  then show "ReplaceToken tx token val = Some (replace_every_occurrence token val tx)"
    by (rule ReplaceToken_eq)
next
  show "ReplaceToken tx [] val = Some tx" by (simp add: ReplaceToken_def)
qed

theorem ReplaceToken_terminates_witness:
  "''{X}'' \<noteq> []
   \<and> ReplaceToken ''{X}'' ''{X}'' ''a{X}b'' = Some ''a{X}b''
   \<and> ReplaceToken ''{X} and {X}'' ''{X}'' ''a{X}b'' = Some ''a{X}b and a{X}b''"
  using ReplaceToken_terminates [of "''{X}''" "''{X}''" "''a{X}b''"]
    ReplaceToken_terminates [of "''{X} and {X}''" "''{X}''" "''a{X}b''"]
  by simp

text \<open>
  C9. The token-substitution phase is the identity on token-free text: when the
  template's text has no occurrence of \<open>{PLAYER_CALLSIGN}\<close>, \<open>{LOCAL_SPIRIT}\<close>,
  \<open>{TABOO}\<close>, \<open>{PLACE}\<close> or \<open>{BODYSYMPTOM}\<close>, the five replacements of
  \<open>RealizeTemplate\<close> return the text unchanged, for every context and profile.
\<close>

theorem substitution_identity_on_token_free:
  assumes "\<not> sublist ''{PLAYER_CALLSIGN}'' (text_tmpl t)"
    and "\<not> sublist ''{LOCAL_SPIRIT}'' (text_tmpl t)"
    and "\<not> sublist ''{TABOO}'' (text_tmpl t)"
    and "\<not> sublist ''{PLACE}'' (text_tmpl t)"
    and "\<not> sublist ''{BODYSYMPTOM}'' (text_tmpl t)"
  shows "substitute_tokens (text_tmpl t) ctx profile = Some (text_tmpl t)"
  unfolding substitute_tokens_def using assms by (simp add: ReplaceToken_absent)

theorem substitution_identity_on_token_free_witness:
  "\<not> sublist ''{PLAYER_CALLSIGN}'' (text_tmpl template_t2)
   \<and> \<not> sublist ''{LOCAL_SPIRIT}'' (text_tmpl template_t2)
   \<and> \<not> sublist ''{TABOO}'' (text_tmpl template_t2)
   \<and> \<not> sublist ''{PLACE}'' (text_tmpl template_t2)
   \<and> \<not> sublist ''{BODYSYMPTOM}'' (text_tmpl template_t2)
   \<and> substitute_tokens (text_tmpl template_t2) demo_ctx oldNeighbor
       = Some ''No one has gone missing since they fixed the wires.''"
proof -
  have nb: "CHR ''{'' \<notin> set (text_tmpl template_t2)"
    by (simp add: template_t2_def default_DialogueTemplate_def)
  have h: "\<not> sublist ''{PLAYER_CALLSIGN}'' (text_tmpl template_t2)"
    "\<not> sublist ''{LOCAL_SPIRIT}'' (text_tmpl template_t2)"
    "\<not> sublist ''{TABOO}'' (text_tmpl template_t2)"
    "\<not> sublist ''{PLACE}'' (text_tmpl template_t2)"
    "\<not> sublist ''{BODYSYMPTOM}'' (text_tmpl template_t2)"
    by (simp_all add: no_brace_no_token [OF nb])
  from substitution_identity_on_token_free [OF h, of demo_ctx oldNeighbor]
  have "substitute_tokens (text_tmpl template_t2) demo_ctx oldNeighbor
       = Some ''No one has gone missing since they fixed the wires.''"
    by (simp add: template_t2_def default_DialogueTemplate_def)
  with h show ?thesis by blast
qed

subsection \<open>Style pass: truncation\<close>

lemma string_rfind_Some:
  "string_rfind tx c n = Some k \<Longrightarrow>
     k \<le> n \<and> k < length tx \<and> tx ! k = c
     \<and> (\<forall>j. k < j \<and> j \<le> n \<and> j < length tx \<longrightarrow> tx ! j \<noteq> c)"
proof (induction n)
  case 0
  then show ?case by (auto split: if_splits)
next
  case (Suc n)
  show ?case
  proof (cases "Suc n < length tx \<and> tx ! Suc n = c")
    case True
    with Suc.prems show ?thesis by auto
  next
    case False
    with Suc.prems have "string_rfind tx c n = Some k" by auto
    from Suc.IH [OF this] False show ?thesis
      by (auto simp: le_Suc_eq)
  qed
qed

lemma string_rfind_None:
  "string_rfind tx c n = None \<Longrightarrow> j \<le> n \<Longrightarrow> j < length tx \<Longrightarrow> tx ! j \<noteq> c"
proof (induction n)
  case 0
  then show ?case by (auto split: if_splits)
next
  case (Suc n)
  from Suc.prems(1) have a: "\<not> (Suc n < length tx \<and> tx ! Suc n = c)"
    and b: "string_rfind tx c n = None"
    by (auto split: if_splits)
  show ?case
  proof (cases "j = Suc n")
    case True
    with a Suc.prems(3) show ?thesis by auto
  next
    case False
    with Suc.prems(2) have "j \<le> n" by simp
    from Suc.IH [OF b this Suc.prems(3)] show ?thesis .
  qed
qed

lemma string_rfind_first:
  "tx \<noteq> [] \<Longrightarrow> tx ! 0 = c \<Longrightarrow> (\<And>j. 0 < j \<Longrightarrow> j \<le> n \<Longrightarrow> j < length tx \<Longrightarrow> tx ! j \<noteq> c) \<Longrightarrow>
     string_rfind tx c n = Some 0"
  by (induction n) auto

lemma string_rfind_absent: "c \<notin> set tx \<Longrightarrow> string_rfind tx c n = None"
  by (induction n) auto

lemma Chance_half: "Chance (5 / 10) g = (unit_draw (shd g) < 1 / 2, stl g)"
  by (simp add: Chance_def)

lemma style_truncate_cut:
  assumes "verbosity01 profile < 3 / 10" "60 < length line" "string_rfind line (CHR '' '') 60 = Some k"
  shows "style_truncate line profile g =
     (if fst (Chance (1 / 2) g) then take k line @ ''...'' else take k line, snd (Chance (1 / 2) g))"
  using assms by (simp add: style_truncate_def Chance_def)

lemma style_truncate_no_space:
  assumes "string_rfind line (CHR '' '') 60 = None"
  shows "style_truncate line profile g = (line, g)"
  using assms by (simp add: style_truncate_def)

lemma style_truncate_skip:
  assumes "3 / 10 \<le> verbosity01 profile \<or> length line \<le> 60"
  shows "style_truncate line profile g = (line, g)"
  using assms by (auto simp: style_truncate_def)

text \<open>
  C8, as amended. In the truncation step of the style pass, if the verbosity slider is
  \<open>< 0.3\<close>, the line exceeds 60 characters and there is a space at or before position
  60, the line is cut at the last such space (everything from that space onward is
  removed) and an ellipsis is appended iff the Bernoulli draw with parameter \<open>0.5\<close>
  succeeds (the draw's unit value is below \<open>1/2\<close>). If there is no space at or before
  position 60, or the slider is \<open>\<ge> 0.3\<close>, or the line has at most 60 characters, the
  step leaves the line unchanged and makes no draw.
\<close>

theorem truncation_step:
  "(verbosity01 profile < 3 / 10 \<and> 60 < length line \<and> (\<exists>k\<le>60. line ! k = CHR '' '')
      \<longrightarrow> (\<exists>k\<le>60. line ! k = CHR '' '' \<and> (\<forall>j. k < j \<and> j \<le> 60 \<longrightarrow> line ! j \<noteq> CHR '' '')
             \<and> style_truncate line profile g =
                 (if fst (Chance (1 / 2) g) then take k line @ ''...'' else take k line,
                  snd (Chance (1 / 2) g))))
   \<and> (verbosity01 profile < 3 / 10 \<and> 60 < length line \<and> (\<forall>k\<le>60. line ! k \<noteq> CHR '' '')
      \<longrightarrow> style_truncate line profile g = (line, g))
   \<and> (3 / 10 \<le> verbosity01 profile \<or> length line \<le> 60
      \<longrightarrow> style_truncate line profile g = (line, g))
   \<and> fst (Chance (1 / 2) g) = (unit_draw (shd g) < 1 / 2)"
proof (intro conjI impI)
  assume a: "verbosity01 profile < 3 / 10 \<and> 60 < length line \<and> (\<exists>k\<le>60. line ! k = CHR '' '')"
  then obtain k0 where k0: "k0 \<le> 60" "line ! k0 = CHR '' ''" by blast
  from a have len: "60 < length line" and verb: "verbosity01 profile < 3 / 10" by auto
  obtain k where k: "string_rfind line (CHR '' '') 60 = Some k"
  proof (cases "string_rfind line (CHR '' '') 60")
    case None
    from string_rfind_None [OF None k0(1)] len k0 show ?thesis by simp
  next
    case (Some k)
    with that show ?thesis by blast
  qed
  from string_rfind_Some [OF k] len
  have "k \<le> 60" "line ! k = CHR '' ''" "\<forall>j. k < j \<and> j \<le> 60 \<longrightarrow> line ! j \<noteq> CHR '' ''"
    by auto
  with style_truncate_cut [OF verb len k, of g]
  show "\<exists>k\<le>60. line ! k = CHR '' '' \<and> (\<forall>j. k < j \<and> j \<le> 60 \<longrightarrow> line ! j \<noteq> CHR '' '')
             \<and> style_truncate line profile g =
                 (if fst (Chance (1 / 2) g) then take k line @ ''...'' else take k line,
                  snd (Chance (1 / 2) g))"
    by blast
next
  assume a: "verbosity01 profile < 3 / 10 \<and> 60 < length line \<and> (\<forall>k\<le>60. line ! k \<noteq> CHR '' '')"
  have "string_rfind line (CHR '' '') 60 = None"
  proof (cases "string_rfind line (CHR '' '') 60")
    case None
    then show ?thesis .
  next
    case (Some k)
    from string_rfind_Some [OF Some] a show ?thesis by auto
  qed
  then show "style_truncate line profile g = (line, g)" by (rule style_truncate_no_space)
next
  assume "3 / 10 \<le> verbosity01 profile \<or> length line \<le> 60"
  then show "style_truncate line profile g = (line, g)" by (rule style_truncate_skip)
next
  show "fst (Chance (1 / 2) g) = (unit_draw (shd g) < 1 / 2)" by (simp add: Chance_def)
qed

lemma scream_text_rfind: "string_rfind scream_text (CHR '' '') 60 = Some 0"
proof (rule string_rfind_first)
  show "scream_text \<noteq> []" by (simp add: scream_text_def)
  show "scream_text ! 0 = CHR '' ''" by (simp add: scream_text_def)
  fix j :: nat assume "0 < j" "j \<le> 60" "j < length scream_text"
  then show "scream_text ! j \<noteq> CHR '' ''"
    by (simp add: scream_text_def nth_Cons' nth_append)
qed

text \<open>
  C8 as stated fails: a line of 61 characters without a space, under a verbosity
  slider of 0.2, is not cut at any space (there is none) and is returned unchanged.
\<close>

theorem truncation_step_counterexample:
  "verbosity01 terse_npc < 3 / 10
   \<and> 60 < length unbroken_line
   \<and> CHR '' '' \<notin> set unbroken_line
   \<and> style_truncate unbroken_line terse_npc (sconst 0) = (unbroken_line, sconst 0)"
proof -
  have a: "CHR '' '' \<notin> set unbroken_line" by (simp add: unbroken_line_def)
  have b: "verbosity01 terse_npc < 3 / 10"
    by (simp add: terse_npc_def default_NPCVoiceProfile_def)
  have c: "60 < length unbroken_line" by (simp add: unbroken_line_def)
  from a have "style_truncate unbroken_line terse_npc (sconst 0) = (unbroken_line, sconst 0)"
    by (simp add: style_truncate_no_space string_rfind_absent)
  with a b c show ?thesis by blast
qed

theorem truncation_step_witness:
  "verbosity01 terse_npc < 3 / 10
   \<and> 60 < length scream_text
   \<and> scream_text ! 0 = CHR '' ''
   \<and> style_truncate scream_text terse_npc (sconst 0) = (''...'', sconst 0)
   \<and> 60 < length (text_tmpl template_t4)
   \<and> text_tmpl template_t4 ! 60 = CHR '' ''
   \<and> style_truncate (text_tmpl template_t4) terse_npc (sconst 0xFFFFFFFF)
       = (''If you hear singing in the stairwell, do not open your door.'', sconst 0xFFFFFFFF)
   \<and> 60 < length unbroken_line
   \<and> style_truncate unbroken_line terse_npc (sconst 0) = (unbroken_line, sconst 0)
   \<and> 3 / 10 \<le> verbosity01 oldNeighbor
   \<and> style_truncate scream_text oldNeighbor (sconst 0) = (scream_text, sconst 0)"
proof -
  have v: "verbosity01 terse_npc < 3 / 10"
    by (simp add: terse_npc_def default_NPCVoiceProfile_def)
  have l: "60 < length scream_text" by (simp add: scream_text_def)
  have z: "scream_text ! 0 = CHR '' ''" by (simp add: scream_text_def)
  have nz: "scream_text ! j \<noteq> CHR '' ''" if "0 < j" "j \<le> 60" for j
    using that by (simp add: scream_text_def nth_Cons' nth_append)
  from truncation_step [of terse_npc scream_text "sconst 0"] v l z
  obtain k where k: "k \<le> 60" "scream_text ! k = CHR '' ''"
    "style_truncate scream_text terse_npc (sconst 0) =
       (if fst (Chance (1 / 2) (sconst 0)) then take k scream_text @ ''...'' else take k scream_text,
        snd (Chance (1 / 2) (sconst 0)))"
    by blast
  from k(1,2) nz [of k] have "k = 0" by (cases "k = 0") auto
  with k(3) have cut: "style_truncate scream_text terse_npc (sconst 0) = (''...'', sconst 0)"
    by (simp add: Chance_def unit_draw_def)
  have l4: "60 < length (text_tmpl template_t4)"
    by (simp add: template_t4_def default_DialogueTemplate_def)
  have z4: "text_tmpl template_t4 ! 60 = CHR '' ''"
    by (simp add: template_t4_def default_DialogueTemplate_def)
  from truncation_step [of terse_npc "text_tmpl template_t4" "sconst 0xFFFFFFFF"] v l4 z4
  obtain k4 where k4: "k4 \<le> 60"
    "\<forall>j. k4 < j \<and> j \<le> 60 \<longrightarrow> text_tmpl template_t4 ! j \<noteq> CHR '' ''"
    "style_truncate (text_tmpl template_t4) terse_npc (sconst 0xFFFFFFFF) =
       (if fst (Chance (1 / 2) (sconst 0xFFFFFFFF))
        then take k4 (text_tmpl template_t4) @ ''...'' else take k4 (text_tmpl template_t4),
        snd (Chance (1 / 2) (sconst 0xFFFFFFFF)))"
    by blast
  from k4(1,2) z4 have "k4 = 60" by (cases "k4 = 60") auto
  with k4(3) have cut4: "style_truncate (text_tmpl template_t4) terse_npc (sconst 0xFFFFFFFF)
       = (''If you hear singing in the stairwell, do not open your door.'', sconst 0xFFFFFFFF)"
    by (simp add: Chance_def unit_draw_def template_t4_def default_DialogueTemplate_def)
  have l2: "60 < length unbroken_line" by (simp add: unbroken_line_def)
  have ns: "\<forall>k\<le>60. unbroken_line ! k \<noteq> CHR '' ''" by (simp add: unbroken_line_def)
  from truncation_step [of terse_npc unbroken_line "sconst 0"] v l2 ns
  have keep: "style_truncate unbroken_line terse_npc (sconst 0) = (unbroken_line, sconst 0)"
    by blast
  have v2: "3 / 10 \<le> verbosity01 oldNeighbor"
    by (simp add: oldNeighbor_def default_NPCVoiceProfile_def)
  from truncation_step [of oldNeighbor scream_text "sconst 0"] v2
  have skip: "style_truncate scream_text oldNeighbor (sconst 0) = (scream_text, sconst 0)"
    by blast
  from v l z cut l4 z4 cut4 l2 keep v2 skip show ?thesis by blast
qed

subsection \<open>Cooldown gating and the main entry point\<close>

lemma CanFire_iff:
  "CanFire s p fn \<longleftrightarrow>
     (case cooldownSeconds p fn of None \<Rightarrow> 0 | Some c \<Rightarrow> c) \<le> 0
     \<or> lastFireTimestamps s (npcId p, fn) = None
     \<or> (\<exists>lastTime. lastFireTimestamps s (npcId p, fn) = Some lastTime
           \<and> fp_ge (fp_sub round64 (Fin (currentTimeSeconds s)) (Fin lastTime))
                 (Fin (case cooldownSeconds p fn of None \<Rightarrow> 0 | Some c \<Rightarrow> c)))"
  by (cases "lastFireTimestamps s (npcId p, fn)") (auto simp: CanFire_def Let_def)

text \<open>The rounded difference of two times is at most any \<open>double\<close> above the exact one.\<close>

lemma double_sub_below:
  assumes x: "round64 x = Fin x" and d: "t2 - t1 \<le> x" and c: "x < C"
  shows "\<not> fp_ge (fp_sub round64 (Fin t2) (Fin t1)) (Fin C)"
proof -
  let ?r = "round_to_format 53 (- 1022) (t2 - t1)"
  from x have rx: "round_to_format 53 (- 1022) x = x"
    by (simp add: round64_def fp_round_Fin)
  from round_mono [OF _ d, of 53 "- 1022"] rx have le: "?r \<le> x" by simp
  have "fp_sub round64 (Fin t2) (Fin t1) = fp_round 53 (- 1022) 1023 (t2 - t1)"
    by (simp add: fp_sub_def round64_def)
  also have "\<dots> = Fin ?r \<or> \<dots> = NInf \<or> (\<dots> = PInf \<and> 0 < ?r \<and> 2 powi 1024 \<le> \<bar>?r\<bar>)"
    by (simp add: fp_round_def Let_def)
  finally consider "fp_sub round64 (Fin t2) (Fin t1) = Fin ?r"
    | "fp_sub round64 (Fin t2) (Fin t1) = NInf"
    | "fp_sub round64 (Fin t2) (Fin t1) = PInf" "0 < ?r" "2 powi 1024 \<le> \<bar>?r\<bar>"
    by blast
  then show ?thesis
  proof cases
    case 1
    with le c show ?thesis by (simp add: fp_ge_def)
  next
    case 2
    then show ?thesis by (simp add: fp_ge_def)
  next
    case 3
    from x [unfolded round64_def fp_round_Fin]
    have "\<bar>round_to_format 53 (- 1022) x\<bar> < 2 powi (1023 + 1)" by (rule conjunct2)
    then have "\<bar>x\<bar> < 2 powi 1024" by (simp only: rx) simp
    with 3(2,3) le show ?thesis by linarith
  qed
qed

lemma GenerateLine_unknown:
  "GetNPCProfile s npc = None \<Longrightarrow> GenerateLine s npc tag ctx = Inr ([], s)"
  by (simp add: GenerateLine_def)

lemma GenerateLine_cooldown:
  "GetNPCProfile s npc = Some p \<Longrightarrow> \<not> CanFire s p (MapTriggerToFunction tag ctx p) \<Longrightarrow>
     GenerateLine s npc tag ctx = Inr ([], s)"
  by (simp add: GenerateLine_def)

lemma GenerateLine_no_candidates:
  "GetNPCProfile s npc = Some p \<Longrightarrow>
   CollectCandidates (templates s) ctx p (MapTriggerToFunction tag ctx p) = [] \<Longrightarrow>
     GenerateLine s npc tag ctx = Inr ([], s)"
  by (simp add: GenerateLine_def Let_def)

lemma GenerateLine_selected:
  assumes "GetNPCProfile s npc = Some p"
    and "CanFire s p (MapTriggerToFunction tag ctx p)"
    and "CollectCandidates (templates s) ctx p (MapTriggerToFunction tag ctx p) \<noteq> []"
    and "PickTemplateWeighted (CollectCandidates (templates s) ctx p (MapTriggerToFunction tag ctx p))
           (rng s) = (Some chosen, g)"
  shows "GenerateLine s npc tag ctx =
     (case RealizeTemplate chosen ctx p g of
        Inl e \<Rightarrow> Inl e
      | Inr (line, g') \<Rightarrow>
          Inr (line, (TouchCooldown (s\<lparr>rng := g\<rparr>) (npcId p) (MapTriggerToFunction tag ctx p))
                       \<lparr>rng := g'\<rparr>))"
  using assms
  by (cases "RealizeTemplate chosen ctx p g")
     (auto simp: GenerateLine_def Let_def TouchCooldown_def)

lemma GenerateLine_ledger:
  assumes p: "GetNPCProfile s npc = Some p"
    and fire: "CanFire s p (MapTriggerToFunction tag ctx p)"
    and ne: "CollectCandidates (templates s) ctx p (MapTriggerToFunction tag ctx p) \<noteq> []"
    and res: "GenerateLine s npc tag ctx = Inr (line, s1)"
  shows "lastFireTimestamps s1 =
           (lastFireTimestamps s)((npcId p, MapTriggerToFunction tag ctx p) \<mapsto> currentTimeSeconds s)
         \<and> npcProfiles s1 = npcProfiles s \<and> templates s1 = templates s
         \<and> currentTimeSeconds s1 = currentTimeSeconds s"
proof -
  from Pick_member [OF ne, of "rng s"] obtain chosen g where
    pick: "PickTemplateWeighted (CollectCandidates (templates s) ctx p (MapTriggerToFunction tag ctx p))
           (rng s) = (Some chosen, g)"
    by blast
  from GenerateLine_selected [OF p fire ne pick] res show ?thesis
    by (auto simp: TouchCooldown_def split: sum.splits)
qed

text \<open>
  C2, as amended. \<open>CanFire\<close> holds iff the configured cooldown of the category (zero
  when the category is absent from the profile's map) is \<open>\<le> 0\<close>, or the ledger has no
  entry for the (NPC, category) pair, or \<open>currentTime - lastTime \<ge> cooldown\<close>, where the
  difference is the one the engine computes, rounded to \<open>double\<close>. Consequently, for a
  registered NPC whose category \<open>K\<close> has cooldown \<open>C > 0\<close>, when a call of
  \<open>GenerateLine\<close> at time \<open>t\<close> that routes to \<open>K\<close> returns a non-empty line, a second
  call that routes to \<open>K\<close>, made after the time was set to \<open>t'\<close>, returns the empty
  line (and leaves the engine as it was) whenever the computed difference \<open>t' - t\<close> is
  not \<open>\<ge> C\<close>; that is the case whenever the exact difference is at most some \<open>double\<close>
  below \<open>C\<close>.
\<close>

theorem cooldown_gating:
  "(CanFire s p fn \<longleftrightarrow>
      (case cooldownSeconds p fn of None \<Rightarrow> 0 | Some c \<Rightarrow> c) \<le> 0
      \<or> lastFireTimestamps s (npcId p, fn) = None
      \<or> (\<exists>lastTime. lastFireTimestamps s (npcId p, fn) = Some lastTime
            \<and> fp_ge (fp_sub round64 (Fin (currentTimeSeconds s)) (Fin lastTime))
                  (Fin (case cooldownSeconds p fn of None \<Rightarrow> 0 | Some c \<Rightarrow> c))))
   \<and> (GetNPCProfile s0 npc = Some q \<and> cooldownSeconds q K = Some C \<and> 0 < C
       \<and> MapTriggerToFunction tag1 ctx1 q = K \<and> MapTriggerToFunction tag2 ctx2 q = K
       \<and> \<not> fp_ge (fp_sub round64 (Fin t') (Fin (currentTimeSeconds s0))) (Fin C)
       \<and> GenerateLine s0 npc tag1 ctx1 = Inr (line1, s1) \<and> line1 \<noteq> []
       \<longrightarrow> GenerateLine (SetCurrentTimeSeconds s1 t') npc tag2 ctx2
             = Inr ([], SetCurrentTimeSeconds s1 t'))
   \<and> (round64 x = Fin x \<and> t' - currentTimeSeconds s0 \<le> x \<and> x < C
       \<longrightarrow> \<not> fp_ge (fp_sub round64 (Fin t') (Fin (currentTimeSeconds s0))) (Fin C))"
proof (intro conjI impI)
  show "CanFire s p fn \<longleftrightarrow>
      (case cooldownSeconds p fn of None \<Rightarrow> 0 | Some c \<Rightarrow> c) \<le> 0
      \<or> lastFireTimestamps s (npcId p, fn) = None
      \<or> (\<exists>lastTime. lastFireTimestamps s (npcId p, fn) = Some lastTime
            \<and> fp_ge (fp_sub round64 (Fin (currentTimeSeconds s)) (Fin lastTime))
                  (Fin (case cooldownSeconds p fn of None \<Rightarrow> 0 | Some c \<Rightarrow> c)))"
    by (rule CanFire_iff)
next
  assume a: "GetNPCProfile s0 npc = Some q \<and> cooldownSeconds q K = Some C \<and> 0 < C
       \<and> MapTriggerToFunction tag1 ctx1 q = K \<and> MapTriggerToFunction tag2 ctx2 q = K
       \<and> \<not> fp_ge (fp_sub round64 (Fin t') (Fin (currentTimeSeconds s0))) (Fin C)
       \<and> GenerateLine s0 npc tag1 ctx1 = Inr (line1, s1) \<and> line1 \<noteq> []"
  then have q: "GetNPCProfile s0 npc = Some q" and cd: "cooldownSeconds q K = Some C" "0 < C"
    and r1: "MapTriggerToFunction tag1 ctx1 q = K" and r2: "MapTriggerToFunction tag2 ctx2 q = K"
    and d: "\<not> fp_ge (fp_sub round64 (Fin t') (Fin (currentTimeSeconds s0))) (Fin C)"
    and res: "GenerateLine s0 npc tag1 ctx1 = Inr (line1, s1)" and ne: "line1 \<noteq> []"
    by auto
  have fire: "CanFire s0 q (MapTriggerToFunction tag1 ctx1 q)"
  proof (rule ccontr)
    assume "\<not> CanFire s0 q (MapTriggerToFunction tag1 ctx1 q)"
    from GenerateLine_cooldown [OF q this] res ne show False by simp
  qed
  have cands: "CollectCandidates (templates s0) ctx1 q (MapTriggerToFunction tag1 ctx1 q) \<noteq> []"
  proof
    assume "CollectCandidates (templates s0) ctx1 q (MapTriggerToFunction tag1 ctx1 q) = []"
    from GenerateLine_no_candidates [OF q this] res ne show False by simp
  qed
  from GenerateLine_ledger [OF q fire cands res] r1
  have led: "lastFireTimestamps s1 = (lastFireTimestamps s0)((npcId q, K) \<mapsto> currentTimeSeconds s0)"
    and prof: "npcProfiles s1 = npcProfiles s0"
    by auto
  let ?s2 = "SetCurrentTimeSeconds s1 t'"
  from q prof have q2: "GetNPCProfile ?s2 npc = Some q"
    by (simp add: GetNPCProfile_def SetCurrentTimeSeconds_def)
  have "\<not> CanFire ?s2 q K"
    using cd d led by (simp add: CanFire_def SetCurrentTimeSeconds_def)
  with r2 have "\<not> CanFire ?s2 q (MapTriggerToFunction tag2 ctx2 q)" by simp
  from GenerateLine_cooldown [OF q2 this]
  show "GenerateLine ?s2 npc tag2 ctx2 = Inr ([], ?s2)" .
next
  assume "round64 x = Fin x \<and> t' - currentTimeSeconds s0 \<le> x \<and> x < C"
  then show "\<not> fp_ge (fp_sub round64 (Fin t') (Fin (currentTimeSeconds s0))) (Fin C)"
    using double_sub_below by blast
qed

text \<open>
  The ledger on each path of \<open>GenerateLine\<close>: unchanged, with the empty line returned,
  when the NPC is unknown, on cooldown or without a matching candidate; otherwise, when
  the call returns, changed in exactly one entry, the (NPC, routed category) pair, which
  holds the current time.
\<close>

lemma ledger_on_each_path:
  "(GetNPCProfile s npc = None
      \<or> (\<exists>p. GetNPCProfile s npc = Some p
              \<and> (\<not> CanFire s p (MapTriggerToFunction tag ctx p)
                   \<or> CollectCandidates (templates s) ctx p (MapTriggerToFunction tag ctx p) = []))
     \<longrightarrow> GenerateLine s npc tag ctx = Inr ([], s))
   \<and> (\<forall>p line s1.
        GetNPCProfile s npc = Some p
        \<and> CanFire s p (MapTriggerToFunction tag ctx p)
        \<and> CollectCandidates (templates s) ctx p (MapTriggerToFunction tag ctx p) \<noteq> []
        \<and> GenerateLine s npc tag ctx = Inr (line, s1)
        \<longrightarrow> lastFireTimestamps s1 =
              (lastFireTimestamps s)((npcId p, MapTriggerToFunction tag ctx p) \<mapsto> currentTimeSeconds s))"
proof (intro conjI impI allI)
  assume "GetNPCProfile s npc = None
      \<or> (\<exists>p. GetNPCProfile s npc = Some p
              \<and> (\<not> CanFire s p (MapTriggerToFunction tag ctx p)
                   \<or> CollectCandidates (templates s) ctx p (MapTriggerToFunction tag ctx p) = []))"
  then show "GenerateLine s npc tag ctx = Inr ([], s)"
    using GenerateLine_unknown GenerateLine_cooldown GenerateLine_no_candidates by blast
next
  fix p line s1
  assume "GetNPCProfile s npc = Some p
        \<and> CanFire s p (MapTriggerToFunction tag ctx p)
        \<and> CollectCandidates (templates s) ctx p (MapTriggerToFunction tag ctx p) \<noteq> []
        \<and> GenerateLine s npc tag ctx = Inr (line, s1)"
  then show "lastFireTimestamps s1 =
              (lastFireTimestamps s)((npcId p, MapTriggerToFunction tag ctx p) \<mapsto> currentTimeSeconds s)"
    using GenerateLine_ledger by blast
qed

text \<open>
  C7, as amended. \<open>GenerateLine\<close> for an NPC identifier that is not registered returns
  the empty line, for every trigger tag and context; so do the calls that are on
  cooldown and those with no matching candidate, each as a returned value and with the
  engine unchanged. Degenerate weights (a sum \<open>\<le> 0\<close> over a non-empty candidate list,
  accumulated in binary32 as the code does) are not a rejection: the first candidate is selected without a draw, the cooldown is
  touched and the line realized from that template is returned.
\<close>

theorem rejection_paths_return_empty:
  "(GetNPCProfile s npc = None \<longrightarrow> GenerateLine s npc tag ctx = Inr ([], s))
   \<and> (\<forall>p. GetNPCProfile s npc = Some p \<and> \<not> CanFire s p (MapTriggerToFunction tag ctx p)
          \<longrightarrow> GenerateLine s npc tag ctx = Inr ([], s))
   \<and> (\<forall>p. GetNPCProfile s npc = Some p
          \<and> CollectCandidates (templates s) ctx p (MapTriggerToFunction tag ctx p) = []
          \<longrightarrow> GenerateLine s npc tag ctx = Inr ([], s))
   \<and> (\<forall>p cands. GetNPCProfile s npc = Some p \<and> CanFire s p (MapTriggerToFunction tag ctx p)
          \<and> cands = CollectCandidates (templates s) ctx p (MapTriggerToFunction tag ctx p)
          \<and> cands \<noteq> [] \<and> fp_le (float_sum (map weight cands)) (Fin 0)
          \<longrightarrow> GenerateLine s npc tag ctx =
               (case RealizeTemplate (hd cands) ctx p (rng s) of
                  Inl e \<Rightarrow> Inl e
                | Inr (line, g') \<Rightarrow>
                    Inr (line, (TouchCooldown s (npcId p) (MapTriggerToFunction tag ctx p))
                                 \<lparr>rng := g'\<rparr>)))"
proof (intro conjI impI allI)
  assume "GetNPCProfile s npc = None"
  then show "GenerateLine s npc tag ctx = Inr ([], s)" by (rule GenerateLine_unknown)
next
  fix p assume "GetNPCProfile s npc = Some p \<and> \<not> CanFire s p (MapTriggerToFunction tag ctx p)"
  then show "GenerateLine s npc tag ctx = Inr ([], s)" by (simp add: GenerateLine_cooldown)
next
  fix p assume "GetNPCProfile s npc = Some p
          \<and> CollectCandidates (templates s) ctx p (MapTriggerToFunction tag ctx p) = []"
  then show "GenerateLine s npc tag ctx = Inr ([], s)" by (simp add: GenerateLine_no_candidates)
next
  fix p cands
  assume a: "GetNPCProfile s npc = Some p \<and> CanFire s p (MapTriggerToFunction tag ctx p)
          \<and> cands = CollectCandidates (templates s) ctx p (MapTriggerToFunction tag ctx p)
          \<and> cands \<noteq> [] \<and> fp_le (float_sum (map weight cands)) (Fin 0)"
  then have ce: "cands = CollectCandidates (templates s) ctx p (MapTriggerToFunction tag ctx p)"
    and ne: "cands \<noteq> []" and le: "fp_le (float_sum (map weight cands)) (Fin 0)"
    by auto
  have pick: "PickTemplateWeighted (CollectCandidates (templates s) ctx p
      (MapTriggerToFunction tag ctx p)) (rng s) = (Some (hd cands), rng s)"
    using Pick_degenerate [OF ne le, of "rng s"] by (simp only: ce)
  from a have "GenerateLine s npc tag ctx =
     (case RealizeTemplate (hd cands) ctx p (rng s) of
        Inl e \<Rightarrow> Inl e
      | Inr (line, g') \<Rightarrow>
          Inr (line, (TouchCooldown (s\<lparr>rng := rng s\<rparr>) (npcId p) (MapTriggerToFunction tag ctx p))
                       \<lparr>rng := g'\<rparr>))"
    by (intro GenerateLine_selected pick) auto
  then show "GenerateLine s npc tag ctx =
               (case RealizeTemplate (hd cands) ctx p (rng s) of
                  Inl e \<Rightarrow> Inl e
                | Inr (line, g') \<Rightarrow>
                    Inr (line, (TouchCooldown s (npcId p) (MapTriggerToFunction tag ctx p))
                                 \<lparr>rng := g'\<rparr>))"
    by (cases "RealizeTemplate (hd cands) ctx p (rng s)") (auto simp: TouchCooldown_def)
qed


lemmas profile_defs = terse_npc_def oldNeighbor_def default_NPCVoiceProfile_def
  default_cooldownSeconds_def

lemmas template_defs = template_t1_def template_t2_def template_t3_def template_t4_def
  template_t5_def scream_template_def muted_template_def default_DialogueTemplate_def

lemmas context_defs = demo_ctx_def default_DialogueContext_def

lemma loaded_system_fields:
  "GetNPCProfile (loaded_system g extra p) (npcId p) = Some p"
  "templates (loaded_system g extra p) = InitializeDefaultTemplates @ extra"
  "rng (loaded_system g extra p) = g"
  "currentTimeSeconds (loaded_system g extra p) = 0"
  "lastFireTimestamps (loaded_system g extra p) = Map.empty"
  by (simp_all add: loaded_system_def RegisterNPCProfile_def DialogueSystem_init_def
      GetNPCProfile_def)

lemma loaded_system_unknown:
  "npc \<noteq> npcId p \<Longrightarrow> GetNPCProfile (loaded_system g extra p) npc = None"
  by (simp add: loaded_system_def RegisterNPCProfile_def DialogueSystem_init_def
      GetNPCProfile_def)

lemma CanFire_fresh: "lastFireTimestamps s (npcId p, fn) = None \<Longrightarrow> CanFire s p fn"
  by (simp add: CanFire_iff)

lemma Pick_single:
  assumes "round32 (weight t) = Fin T" "0 < T"
  shows "PickTemplateWeighted [t] g = (Some t, stl g)"
  using assms
  by (simp add: PickTemplateWeighted_def RandomFloat_def Let_def split: option.splits)

lemma unit_draw_max: "unit_draw 0xFFFFFFFF = 4294967295 / 4294967296"
  by (simp add: unit_draw_def)

lemma unit_draw_zero: "unit_draw 0 = 0"
  by (simp add: unit_draw_def)

lemma candidates_scream:
  "CollectCandidates (InitializeDefaultTemplates @ [scream_template]) default_DialogueContext
     terse_npc Pain = [scream_template]"
  by (simp add: CollectCandidates_def InitializeDefaultTemplates_def candidate_passes_def
      template_defs profile_defs context_defs)

lemma candidates_muted:
  "CollectCandidates (InitializeDefaultTemplates @ [muted_template]) default_DialogueContext
     oldNeighbor Pain = [muted_template]"
  by (simp add: CollectCandidates_def InitializeDefaultTemplates_def candidate_passes_def
      template_defs profile_defs context_defs)

lemma candidates_demo:
  "CollectCandidates (InitializeDefaultTemplates @ []) demo_ctx oldNeighbor Pain = [template_t5]"
  by (simp add: CollectCandidates_def InitializeDefaultTemplates_def candidate_passes_def
      template_defs profile_defs context_defs)

lemma scream_no_brace: "CHR ''{'' \<notin> set scream_text"
  by (simp add: scream_text_def)

lemma truncate_scream:
  "shd g = 0xFFFFFFFF \<Longrightarrow> style_truncate scream_text terse_npc g = ([], stl g)"
  by (simp add: style_truncate_def scream_text_rfind Chance_def unit_draw_max profile_defs)
     (simp add: scream_text_def)

lemma substitute_scream:
  "substitute_tokens scream_text ctx profile = Some scream_text"
  by (rule substitute_tokens_no_brace [OF scream_no_brace])

lemma realize_scream_error:
  "RealizeTemplate scream_template default_DialogueContext terse_npc
     (0xFFFFFFFF ## 0xFFFFFFFF ## sconst 0) = Inl BackOfEmptyString"
proof -
  have fat: "style_fatalism [] terse_npc Pain (0xFFFFFFFF ## sconst 0) = Inr ([], sconst 0)"
    by (simp add: style_fatalism_def Chance_def unit_draw_max profile_defs)
  have bur: "style_bureaucratic [] terse_npc Pain (sconst 0) = ([], sconst 0)"
    by (simp add: style_bureaucratic_def profile_defs)
  have sup: "style_superstition [] terse_npc (sconst 0) = Inl BackOfEmptyString"
    by (simp add: style_superstition_def Chance_def unit_draw_zero profile_defs)
  show ?thesis
    by (simp add: RealizeTemplate_def substitute_scream ApplyStyleNoise_def truncate_scream
        fat bur sup scream_template_def default_DialogueTemplate_def)
qed

lemma realize_scream_empty:
  "RealizeTemplate scream_template default_DialogueContext terse_npc (sconst 0xFFFFFFFF)
     = Inr ([], sconst 0xFFFFFFFF)"
proof -
  have fat: "style_fatalism [] terse_npc Pain (sconst 0xFFFFFFFF) = Inr ([], sconst 0xFFFFFFFF)"
    by (simp add: style_fatalism_def Chance_def unit_draw_max profile_defs)
  have bur: "style_bureaucratic [] terse_npc Pain (sconst 0xFFFFFFFF) = ([], sconst 0xFFFFFFFF)"
    by (simp add: style_bureaucratic_def profile_defs)
  have sup: "style_superstition [] terse_npc (sconst 0xFFFFFFFF) = Inr ([], sconst 0xFFFFFFFF)"
    by (simp add: style_superstition_def Chance_def unit_draw_max profile_defs)
  show ?thesis
    by (simp add: RealizeTemplate_def substitute_scream ApplyStyleNoise_def truncate_scream
        fat bur sup scream_template_def default_DialogueTemplate_def)
qed

lemma realize_plain:
  assumes "CHR ''{'' \<notin> set (text_tmpl t)" and "function_tmpl t = Pain"
  shows "RealizeTemplate t ctx oldNeighbor (sconst 0xFFFFFFFF)
     = Inr (text_tmpl t, sconst 0xFFFFFFFF)"
proof -
  have tr: "style_truncate (text_tmpl t) oldNeighbor (sconst 0xFFFFFFFF)
      = (text_tmpl t, sconst 0xFFFFFFFF)"
    by (simp add: style_truncate_def profile_defs)
  have fat: "style_fatalism (text_tmpl t) oldNeighbor Pain (sconst 0xFFFFFFFF)
      = Inr (text_tmpl t, sconst 0xFFFFFFFF)"
    by (simp add: style_fatalism_def Chance_def unit_draw_max profile_defs)
  have bur: "style_bureaucratic (text_tmpl t) oldNeighbor Pain (sconst 0xFFFFFFFF)
      = (text_tmpl t, sconst 0xFFFFFFFF)"
    by (simp add: style_bureaucratic_def profile_defs)
  have sup: "style_superstition (text_tmpl t) oldNeighbor (sconst 0xFFFFFFFF)
      = Inr (text_tmpl t, sconst 0xFFFFFFFF)"
    by (simp add: style_superstition_def Chance_def unit_draw_max profile_defs)
  show ?thesis
    by (simp add: RealizeTemplate_def substitute_tokens_no_brace [OF assms(1)] assms(2)
        ApplyStyleNoise_def tr fat bur sup)
qed


lemma route_pain: "MapTriggerToFunction ''on_player_pain'' ctx profile = Pain"
  by (simp add: MapTriggerToFunction_def)

lemma GenerateLine_scream:
  "GenerateLine (loaded_system g [scream_template] terse_npc) ''NPC_TERSE'' ''on_player_pain''
     default_DialogueContext =
   (case RealizeTemplate scream_template default_DialogueContext terse_npc (stl g) of
      Inl e \<Rightarrow> Inl e
    | Inr (line, g') \<Rightarrow>
        Inr (line, (loaded_system g [scream_template] terse_npc)
                     \<lparr>rng := g', lastFireTimestamps := [(''NPC_TERSE'', Pain) \<mapsto> 0]\<rparr>))"
proof -
  let ?s = "loaded_system g [scream_template] terse_npc"
  have id: "npcId terse_npc = ''NPC_TERSE''" by (simp add: profile_defs)
  have p: "GetNPCProfile ?s ''NPC_TERSE'' = Some terse_npc"
    using loaded_system_fields(1) [of g "[scream_template]" terse_npc] by (simp only: id)
  have fire: "CanFire ?s terse_npc (MapTriggerToFunction ''on_player_pain'' default_DialogueContext terse_npc)"
    by (rule CanFire_fresh) (simp add: loaded_system_fields)
  have cands: "CollectCandidates (templates ?s) default_DialogueContext terse_npc
      (MapTriggerToFunction ''on_player_pain'' default_DialogueContext terse_npc) = [scream_template]"
    by (simp add: loaded_system_fields route_pain candidates_scream)
  have pick: "PickTemplateWeighted (CollectCandidates (templates ?s) default_DialogueContext terse_npc
      (MapTriggerToFunction ''on_player_pain'' default_DialogueContext terse_npc)) (rng ?s)
      = (Some scream_template, stl g)"
    unfolding cands
    by (simp add: loaded_system_fields Pick_single [where T = 1] template_defs round32_values)
  have ne: "CollectCandidates (templates ?s) default_DialogueContext terse_npc
      (MapTriggerToFunction ''on_player_pain'' default_DialogueContext terse_npc) \<noteq> []"
    unfolding cands by simp
  show ?thesis
    unfolding GenerateLine_selected [OF p fire ne pick]
    by (cases "RealizeTemplate scream_template default_DialogueContext terse_npc (stl g)")
       (auto simp: TouchCooldown_def route_pain id loaded_system_fields)
qed

text \<open>
  C10 says that for a template with non-empty text the style pass never reads the last
  character of an empty line. The code does: the truncation step cuts at position 0
  when the only space among the first 61 characters is the first one, which leaves the
  empty line, and the superstitious-fragment step then calls \<open>back()\<close> on it. Here the
  pain bark \<open>scream_template\<close> (64 characters, a leading space) is spoken by an NPC with
  the default sliders and verbosity 0.2; the draws for the ellipsis and the resigned
  tail fail and the draw for the fragment succeeds. The call ends in
  \<open>BackOfEmptyString\<close>.
\<close>

theorem style_pass_reads_back_of_empty_line:
  "text_tmpl scream_template \<noteq> []
   \<and> GenerateLine
       (loaded_system (0 ## 0xFFFFFFFF ## 0xFFFFFFFF ## sconst 0) [scream_template] terse_npc)
       ''NPC_TERSE'' ''on_player_pain'' default_DialogueContext
     = Inl BackOfEmptyString"
  by (simp add: GenerateLine_scream realize_scream_error)
     (simp add: scream_template_def default_DialogueTemplate_def scream_text_def)

text \<open>
  C3 says that every call of \<open>GenerateLine\<close> that returns the empty line leaves the
  cooldown ledger unchanged. The code breaks it through the same cut at position 0:
  with the same template and NPC, when all draws of the style pass fail, the call
  returns the empty line although a template was selected, and the ledger has a new
  entry for the (NPC, category) pair.
\<close>

theorem empty_line_with_ledger_written:
  "GenerateLine (loaded_system (sconst 0xFFFFFFFF) [scream_template] terse_npc)
       ''NPC_TERSE'' ''on_player_pain'' default_DialogueContext
     = Inr ([], (loaded_system (sconst 0xFFFFFFFF) [scream_template] terse_npc)
                  \<lparr>lastFireTimestamps := [(''NPC_TERSE'', Pain) \<mapsto> 0]\<rparr>)
   \<and> lastFireTimestamps (loaded_system (sconst 0xFFFFFFFF) [scream_template] terse_npc)
       (''NPC_TERSE'', Pain) = None
   \<and> lastFireTimestamps ((loaded_system (sconst 0xFFFFFFFF) [scream_template] terse_npc)
                  \<lparr>lastFireTimestamps := [(''NPC_TERSE'', Pain) \<mapsto> 0]\<rparr>)
       (''NPC_TERSE'', Pain) = Some 0"
  by (simp add: GenerateLine_scream realize_scream_empty loaded_system_fields)


lemma Pick_single_sconst: "PickTemplateWeighted [t] (sconst w) = (Some t, sconst w)"
  by (auto simp: PickTemplateWeighted_def RandomFloat_def Let_def split: option.splits if_splits)

lemma GenerateLine_oldNeighbor_pain:
  assumes p: "GetNPCProfile s ''NPC_OLD_NEIGHBOR'' = Some oldNeighbor"
    and fire: "CanFire s oldNeighbor Pain"
    and cands: "CollectCandidates (templates s) ctx oldNeighbor Pain = [t]"
    and g: "rng s = sconst 0xFFFFFFFF"
    and nb: "CHR ''{'' \<notin> set (text_tmpl t)"
    and fn: "function_tmpl t = Pain"
  shows "GenerateLine s ''NPC_OLD_NEIGHBOR'' ''on_player_pain'' ctx
         = Inr (text_tmpl t, TouchCooldown s ''NPC_OLD_NEIGHBOR'' Pain)"
proof -
  have id: "npcId oldNeighbor = ''NPC_OLD_NEIGHBOR''" by (simp add: profile_defs)
  have fire': "CanFire s oldNeighbor (MapTriggerToFunction ''on_player_pain'' ctx oldNeighbor)"
    using fire by (simp add: route_pain)
  have cs: "CollectCandidates (templates s) ctx oldNeighbor
      (MapTriggerToFunction ''on_player_pain'' ctx oldNeighbor) = [t]"
    by (simp add: route_pain cands)
  have pick: "PickTemplateWeighted (CollectCandidates (templates s) ctx oldNeighbor
      (MapTriggerToFunction ''on_player_pain'' ctx oldNeighbor)) (rng s)
      = (Some t, sconst 0xFFFFFFFF)"
    unfolding cs by (simp add: g Pick_single_sconst)
  have ne: "CollectCandidates (templates s) ctx oldNeighbor
      (MapTriggerToFunction ''on_player_pain'' ctx oldNeighbor) \<noteq> []"
    unfolding cs by simp
  show ?thesis
    unfolding GenerateLine_selected [OF p fire' ne pick]
    using g by (cases s) (simp add: realize_plain [OF nb fn] TouchCooldown_def route_pain id)
qed

lemma oldNeighbor_registered:
  "GetNPCProfile (loaded_system g extra oldNeighbor) ''NPC_OLD_NEIGHBOR'' = Some oldNeighbor"
  using loaded_system_fields(1) [of g extra oldNeighbor] by (simp add: profile_defs)

lemma GenerateLine_demo:
  "GenerateLine (loaded_system (sconst 0xFFFFFFFF) [] oldNeighbor)
           ''NPC_OLD_NEIGHBOR'' ''on_player_pain'' demo_ctx
         = Inr (text_tmpl template_t5, (loaded_system (sconst 0xFFFFFFFF) [] oldNeighbor)
                  \<lparr>lastFireTimestamps := [(''NPC_OLD_NEIGHBOR'', Pain) \<mapsto> 0]\<rparr>)"
proof -
  let ?s = "loaded_system (sconst 0xFFFFFFFF) [] oldNeighbor"
  have "GenerateLine ?s ''NPC_OLD_NEIGHBOR'' ''on_player_pain'' demo_ctx
      = Inr (text_tmpl template_t5, TouchCooldown ?s ''NPC_OLD_NEIGHBOR'' Pain)"
  proof (rule GenerateLine_oldNeighbor_pain [OF oldNeighbor_registered])
    show "CanFire ?s oldNeighbor Pain" by (rule CanFire_fresh) (simp add: loaded_system_fields)
    show "CollectCandidates (templates ?s) demo_ctx oldNeighbor Pain = [template_t5]"
      using candidates_demo by (simp add: loaded_system_fields)
  qed (simp_all add: loaded_system_fields template_defs)
  then show ?thesis by (simp add: TouchCooldown_def loaded_system_fields)
qed

lemma GenerateLine_muted:
  "GenerateLine (loaded_system (sconst 0xFFFFFFFF) [muted_template] oldNeighbor)
           ''NPC_OLD_NEIGHBOR'' ''on_player_pain'' default_DialogueContext
         = Inr (''Quiet now.'', (loaded_system (sconst 0xFFFFFFFF) [muted_template] oldNeighbor)
                  \<lparr>lastFireTimestamps := [(''NPC_OLD_NEIGHBOR'', Pain) \<mapsto> 0]\<rparr>)"
proof -
  let ?s = "loaded_system (sconst 0xFFFFFFFF) [muted_template] oldNeighbor"
  have "GenerateLine ?s ''NPC_OLD_NEIGHBOR'' ''on_player_pain'' default_DialogueContext
      = Inr (text_tmpl muted_template, TouchCooldown ?s ''NPC_OLD_NEIGHBOR'' Pain)"
  proof (rule GenerateLine_oldNeighbor_pain [OF oldNeighbor_registered])
    show "CanFire ?s oldNeighbor Pain" by (rule CanFire_fresh) (simp add: loaded_system_fields)
    show "CollectCandidates (templates ?s) default_DialogueContext oldNeighbor Pain = [muted_template]"
      by (simp add: loaded_system_fields candidates_muted)
  qed (simp_all add: loaded_system_fields template_defs)
  then show ?thesis by (simp add: TouchCooldown_def loaded_system_fields template_defs)
qed

lemma round64_values:
  "round64 0 = Fin 0"
  "round64 1 = Fin 1"
  "round64 (time_second - time_first) = Fin 3"
proof -
  show "round64 0 = Fin 0" by (simp add: round64_def fp_round_def)
  show "round64 1 = Fin 1"
    by (simp add: round64_def fp_round_def round_eval [where e = 0] round_half_even_def)
  show "round64 (time_second - time_first) = Fin 3"
    by (simp add: time_first_def time_second_def round64_def fp_round_def
        round_eval [where e = 1] round_half_even_def)
qed

text \<open>
  C7 as stated fails for degenerate weights: with a single candidate of weight zero
  the call returns that candidate's line, not the empty one.
\<close>

theorem rejection_paths_counterexample:
  "CollectCandidates
       (templates (loaded_system (sconst 0xFFFFFFFF) [muted_template] oldNeighbor))
       default_DialogueContext oldNeighbor Pain = [muted_template]
   \<and> fp_le (float_sum (map weight [muted_template])) (Fin 0)
   \<and> GenerateLine (loaded_system (sconst 0xFFFFFFFF) [muted_template] oldNeighbor)
           ''NPC_OLD_NEIGHBOR'' ''on_player_pain'' default_DialogueContext
         = Inr (''Quiet now.'', (loaded_system (sconst 0xFFFFFFFF) [muted_template] oldNeighbor)
                  \<lparr>lastFireTimestamps := [(''NPC_OLD_NEIGHBOR'', Pain) \<mapsto> 0]\<rparr>)"
  by (simp add: GenerateLine_muted loaded_system_fields candidates_muted)
     (simp add: template_defs float_sum_def round32_values)


theorem cooldown_gating_witness:
  "CanFire (loaded_system (sconst 0xFFFFFFFF) [] oldNeighbor) oldNeighbor Pain
   \<and> GetNPCProfile (loaded_system (sconst 0xFFFFFFFF) [] oldNeighbor) ''NPC_OLD_NEIGHBOR''
       = Some oldNeighbor
   \<and> cooldownSeconds oldNeighbor Pain = Some 3
   \<and> MapTriggerToFunction ''on_player_pain'' demo_ctx oldNeighbor = Pain
   \<and> round64 1 = Fin 1
   \<and> 1 - currentTimeSeconds (loaded_system (sconst 0xFFFFFFFF) [] oldNeighbor) \<le> 1
   \<and> \<not> fp_ge (fp_sub round64 (Fin 1)
                 (Fin (currentTimeSeconds (loaded_system (sconst 0xFFFFFFFF) [] oldNeighbor))))
            (Fin 3)
   \<and> GenerateLine (loaded_system (sconst 0xFFFFFFFF) [] oldNeighbor)
         ''NPC_OLD_NEIGHBOR'' ''on_player_pain'' demo_ctx
       = Inr (text_tmpl template_t5, (loaded_system (sconst 0xFFFFFFFF) [] oldNeighbor)
                \<lparr>lastFireTimestamps := [(''NPC_OLD_NEIGHBOR'', Pain) \<mapsto> 0]\<rparr>)
   \<and> text_tmpl template_t5 \<noteq> []
   \<and> GenerateLine
         (SetCurrentTimeSeconds
            ((loaded_system (sconst 0xFFFFFFFF) [] oldNeighbor)
               \<lparr>lastFireTimestamps := [(''NPC_OLD_NEIGHBOR'', Pain) \<mapsto> 0]\<rparr>) 1)
         ''NPC_OLD_NEIGHBOR'' ''on_player_pain'' demo_ctx
       = Inr ([], SetCurrentTimeSeconds
            ((loaded_system (sconst 0xFFFFFFFF) [] oldNeighbor)
               \<lparr>lastFireTimestamps := [(''NPC_OLD_NEIGHBOR'', Pain) \<mapsto> 0]\<rparr>) 1)"
proof -
  let ?s0 = "loaded_system (sconst 0xFFFFFFFF) [] oldNeighbor"
  let ?s1 = "?s0\<lparr>lastFireTimestamps := [(''NPC_OLD_NEIGHBOR'', Pain) \<mapsto> 0]\<rparr>"
  have fire: "CanFire ?s0 oldNeighbor Pain"
    by (rule CanFire_fresh) (simp add: loaded_system_fields)
  note p = oldNeighbor_registered [of "sconst 0xFFFFFFFF" "[]"]
  have cd: "cooldownSeconds oldNeighbor Pain = Some 3" by (simp add: profile_defs)
  have ne: "text_tmpl template_t5 \<noteq> []" by (simp add: template_defs)
  have t0: "currentTimeSeconds ?s0 = 0" by (simp add: loaded_system_fields)
  have x: "round64 1 = Fin 1" by (rule round64_values)
  have le: "1 - currentTimeSeconds ?s0 \<le> 1" by (simp add: t0)
  note cg = cooldown_gating [of ?s0 oldNeighbor Pain ?s0 "''NPC_OLD_NEIGHBOR''" oldNeighbor Pain 3
      "''on_player_pain''" demo_ctx "''on_player_pain''" demo_ctx 1 "text_tmpl template_t5" ?s1 1]
  from cg x le
  have below: "\<not> fp_ge (fp_sub round64 (Fin 1) (Fin (currentTimeSeconds ?s0))) (Fin 3)"
    by simp
  from cg p cd route_pain GenerateLine_demo ne below
  have second: "GenerateLine (SetCurrentTimeSeconds ?s1 1)
         ''NPC_OLD_NEIGHBOR'' ''on_player_pain'' demo_ctx
       = Inr ([], SetCurrentTimeSeconds ?s1 1)"
    by simp
  from fire p cd route_pain [of demo_ctx oldNeighbor] x le below GenerateLine_demo ne second
  show ?thesis by blast
qed

text \<open>
  C2 as stated fails: the first call is made at the \<open>double\<close> nearest to 0.3 and the
  second at the \<open>double\<close> nearest to 3.3, with a pain cooldown of 3 seconds. The exact
  difference of the two times is below 3, its \<open>double\<close> rounding is 3, and both calls
  return a line.
\<close>

theorem cooldown_gating_counterexample:
  "0 \<le> time_second - time_first
   \<and> time_second - time_first < 3
   \<and> cooldownSeconds oldNeighbor Pain = Some 3
   \<and> GenerateLine
         (SetCurrentTimeSeconds (loaded_system (sconst 0xFFFFFFFF) [] oldNeighbor) time_first)
         ''NPC_OLD_NEIGHBOR'' ''on_player_pain'' demo_ctx
       = Inr (text_tmpl template_t5,
              TouchCooldown
                (SetCurrentTimeSeconds (loaded_system (sconst 0xFFFFFFFF) [] oldNeighbor) time_first)
                ''NPC_OLD_NEIGHBOR'' Pain)
   \<and> text_tmpl template_t5 \<noteq> []
   \<and> GenerateLine
         (SetCurrentTimeSeconds
            (TouchCooldown
               (SetCurrentTimeSeconds (loaded_system (sconst 0xFFFFFFFF) [] oldNeighbor) time_first)
               ''NPC_OLD_NEIGHBOR'' Pain)
            time_second)
         ''NPC_OLD_NEIGHBOR'' ''on_player_pain'' demo_ctx
       = Inr (text_tmpl template_t5,
              TouchCooldown
                (SetCurrentTimeSeconds
                   (TouchCooldown
                      (SetCurrentTimeSeconds (loaded_system (sconst 0xFFFFFFFF) [] oldNeighbor)
                         time_first)
                      ''NPC_OLD_NEIGHBOR'' Pain)
                   time_second)
                ''NPC_OLD_NEIGHBOR'' Pain)"
proof -
  let ?s = "loaded_system (sconst 0xFFFFFFFF) [] oldNeighbor"
  let ?s0 = "SetCurrentTimeSeconds ?s time_first"
  let ?s1 = "TouchCooldown ?s0 ''NPC_OLD_NEIGHBOR'' Pain"
  let ?s2 = "SetCurrentTimeSeconds ?s1 time_second"
  have id: "npcId oldNeighbor = ''NPC_OLD_NEIGHBOR''" by (simp add: profile_defs)
  have d: "0 \<le> time_second - time_first" "time_second - time_first < 3"
    by (simp_all add: time_first_def time_second_def)
  have cd: "cooldownSeconds oldNeighbor Pain = Some 3" by (simp add: profile_defs)
  have ne: "text_tmpl template_t5 \<noteq> []" by (simp add: template_defs)
  have p0: "GetNPCProfile ?s0 ''NPC_OLD_NEIGHBOR'' = Some oldNeighbor"
    using oldNeighbor_registered [of "sconst 0xFFFFFFFF" "[]"]
    by (simp add: GetNPCProfile_def SetCurrentTimeSeconds_def)
  have p2: "GetNPCProfile ?s2 ''NPC_OLD_NEIGHBOR'' = Some oldNeighbor"
    using oldNeighbor_registered [of "sconst 0xFFFFFFFF" "[]"]
    by (simp add: GetNPCProfile_def SetCurrentTimeSeconds_def TouchCooldown_def)
  have fire0: "CanFire ?s0 oldNeighbor Pain"
    by (rule CanFire_fresh) (simp add: loaded_system_fields SetCurrentTimeSeconds_def)
  have fire2: "CanFire ?s2 oldNeighbor Pain"
    by (simp add: CanFire_def cd id SetCurrentTimeSeconds_def TouchCooldown_def fp_sub_def
        fp_ge_def round64_values)
  have c0: "CollectCandidates (templates ?s0) demo_ctx oldNeighbor Pain = [template_t5]"
    using candidates_demo by (simp add: loaded_system_fields SetCurrentTimeSeconds_def)
  have c2: "CollectCandidates (templates ?s2) demo_ctx oldNeighbor Pain = [template_t5]"
    using candidates_demo
    by (simp add: loaded_system_fields SetCurrentTimeSeconds_def TouchCooldown_def)
  have first: "GenerateLine ?s0 ''NPC_OLD_NEIGHBOR'' ''on_player_pain'' demo_ctx
      = Inr (text_tmpl template_t5, ?s1)"
    by (rule GenerateLine_oldNeighbor_pain [OF p0 fire0 c0])
       (simp_all add: loaded_system_fields SetCurrentTimeSeconds_def template_defs)
  have second: "GenerateLine ?s2 ''NPC_OLD_NEIGHBOR'' ''on_player_pain'' demo_ctx
      = Inr (text_tmpl template_t5, TouchCooldown ?s2 ''NPC_OLD_NEIGHBOR'' Pain)"
    by (rule GenerateLine_oldNeighbor_pain [OF p2 fire2 c2])
       (simp_all add: loaded_system_fields SetCurrentTimeSeconds_def TouchCooldown_def
          template_defs)
  from d cd first ne second show ?thesis by blast
qed

theorem rejection_paths_return_empty_witness:
  "GetNPCProfile (loaded_system (sconst 0xFFFFFFFF) [muted_template] oldNeighbor) ''NPC_NOBODY''
       = None
   \<and> GenerateLine (loaded_system (sconst 0xFFFFFFFF) [muted_template] oldNeighbor)
         ''NPC_NOBODY'' ''on_player_pain'' default_DialogueContext
       = Inr ([], loaded_system (sconst 0xFFFFFFFF) [muted_template] oldNeighbor)
   \<and> GetNPCProfile (loaded_system (sconst 0xFFFFFFFF) [muted_template] oldNeighbor)
         ''NPC_OLD_NEIGHBOR'' = Some oldNeighbor
   \<and> CollectCandidates (templates (loaded_system (sconst 0xFFFFFFFF) [muted_template] oldNeighbor))
         default_DialogueContext oldNeighbor
         (MapTriggerToFunction ''on_enemy_spotted'' default_DialogueContext oldNeighbor) = []
   \<and> GenerateLine (loaded_system (sconst 0xFFFFFFFF) [muted_template] oldNeighbor)
         ''NPC_OLD_NEIGHBOR'' ''on_enemy_spotted'' default_DialogueContext
       = Inr ([], loaded_system (sconst 0xFFFFFFFF) [muted_template] oldNeighbor)
   \<and> \<not> CanFire ((loaded_system (sconst 0xFFFFFFFF) [muted_template] oldNeighbor)
                  \<lparr>lastFireTimestamps := [(''NPC_OLD_NEIGHBOR'', Pain) \<mapsto> 0]\<rparr>) oldNeighbor
         (MapTriggerToFunction ''on_player_pain'' default_DialogueContext oldNeighbor)
   \<and> GenerateLine ((loaded_system (sconst 0xFFFFFFFF) [muted_template] oldNeighbor)
                  \<lparr>lastFireTimestamps := [(''NPC_OLD_NEIGHBOR'', Pain) \<mapsto> 0]\<rparr>)
         ''NPC_OLD_NEIGHBOR'' ''on_player_pain'' default_DialogueContext
       = Inr ([], (loaded_system (sconst 0xFFFFFFFF) [muted_template] oldNeighbor)
                  \<lparr>lastFireTimestamps := [(''NPC_OLD_NEIGHBOR'', Pain) \<mapsto> 0]\<rparr>)
   \<and> CanFire (loaded_system (sconst 0xFFFFFFFF) [muted_template] oldNeighbor) oldNeighbor
         (MapTriggerToFunction ''on_player_pain'' default_DialogueContext oldNeighbor)
   \<and> fp_le (float_sum (map weight
         (CollectCandidates (templates (loaded_system (sconst 0xFFFFFFFF) [muted_template] oldNeighbor))
            default_DialogueContext oldNeighbor
            (MapTriggerToFunction ''on_player_pain'' default_DialogueContext oldNeighbor)))) (Fin 0)
   \<and> GenerateLine (loaded_system (sconst 0xFFFFFFFF) [muted_template] oldNeighbor)
         ''NPC_OLD_NEIGHBOR'' ''on_player_pain'' default_DialogueContext
       = Inr (''Quiet now.'', (loaded_system (sconst 0xFFFFFFFF) [muted_template] oldNeighbor)
                  \<lparr>lastFireTimestamps := [(''NPC_OLD_NEIGHBOR'', Pain) \<mapsto> 0]\<rparr>)"
proof -
  let ?s = "loaded_system (sconst 0xFFFFFFFF) [muted_template] oldNeighbor"
  let ?s1 = "?s\<lparr>lastFireTimestamps := [(''NPC_OLD_NEIGHBOR'', Pain) \<mapsto> 0]\<rparr>"
  let ?ctx = default_DialogueContext
  have id: "npcId oldNeighbor = ''NPC_OLD_NEIGHBOR''" by (simp add: profile_defs)
  have u: "GetNPCProfile ?s ''NPC_NOBODY'' = None"
    by (rule loaded_system_unknown) (simp add: id)
  have p: "GetNPCProfile ?s ''NPC_OLD_NEIGHBOR'' = Some oldNeighbor"
    using loaded_system_fields(1) [of "sconst 0xFFFFFFFF" "[muted_template]" oldNeighbor]
    by (simp only: id)
  have p1: "GetNPCProfile ?s1 ''NPC_OLD_NEIGHBOR'' = Some oldNeighbor"
    using p by (simp add: GetNPCProfile_def)
  have none: "CollectCandidates (templates ?s) ?ctx oldNeighbor
      (MapTriggerToFunction ''on_enemy_spotted'' ?ctx oldNeighbor) = []"
    by (simp add: loaded_system_fields MapTriggerToFunction_def CollectCandidates_def
        InitializeDefaultTemplates_def candidate_passes_def template_defs)
  have cold: "\<not> CanFire ?s1 oldNeighbor (MapTriggerToFunction ''on_player_pain'' ?ctx oldNeighbor)"
    by (simp add: route_pain CanFire_def loaded_system_fields profile_defs fp_sub_def fp_ge_def
        round64_values)
  have fire: "CanFire ?s oldNeighbor (MapTriggerToFunction ''on_player_pain'' ?ctx oldNeighbor)"
    by (rule CanFire_fresh) (simp add: loaded_system_fields)
  have cs: "CollectCandidates (templates ?s) ?ctx oldNeighbor
      (MapTriggerToFunction ''on_player_pain'' ?ctx oldNeighbor) = [muted_template]"
    by (simp add: loaded_system_fields route_pain candidates_muted)
  have deg: "fp_le (float_sum (map weight (CollectCandidates (templates ?s) ?ctx oldNeighbor
      (MapTriggerToFunction ''on_player_pain'' ?ctx oldNeighbor)))) (Fin 0)"
    unfolding cs by (simp add: template_defs float_sum_def round32_values)
  note thm0 = rejection_paths_return_empty [of ?s "''NPC_NOBODY''" "''on_player_pain''" ?ctx]
  note thm1 = rejection_paths_return_empty [of ?s "''NPC_OLD_NEIGHBOR''" "''on_enemy_spotted''" ?ctx]
  note thm2 = rejection_paths_return_empty [of ?s1 "''NPC_OLD_NEIGHBOR''" "''on_player_pain''" ?ctx]
  note thm3 = rejection_paths_return_empty [of ?s "''NPC_OLD_NEIGHBOR''" "''on_player_pain''" ?ctx]
  from thm0 u have a: "GenerateLine ?s ''NPC_NOBODY'' ''on_player_pain'' ?ctx = Inr ([], ?s)"
    by blast
  from thm1 p none
  have b: "GenerateLine ?s ''NPC_OLD_NEIGHBOR'' ''on_enemy_spotted'' ?ctx = Inr ([], ?s)"
    by blast
  from thm2 p1 cold
  have c: "GenerateLine ?s1 ''NPC_OLD_NEIGHBOR'' ''on_player_pain'' ?ctx = Inr ([], ?s1)"
    by blast
  from thm3 p fire cs deg
  have "GenerateLine ?s ''NPC_OLD_NEIGHBOR'' ''on_player_pain'' ?ctx =
      (case RealizeTemplate (hd [muted_template]) ?ctx oldNeighbor (rng ?s) of
         Inl e \<Rightarrow> Inl e
       | Inr (line, g') \<Rightarrow>
           Inr (line, (TouchCooldown ?s (npcId oldNeighbor)
                  (MapTriggerToFunction ''on_player_pain'' ?ctx oldNeighbor))\<lparr>rng := g'\<rparr>))"
    by (metis list.distinct(1))
  then have d: "GenerateLine ?s ''NPC_OLD_NEIGHBOR'' ''on_player_pain'' ?ctx
      = Inr (''Quiet now.'', ?s1)"
    by (simp add: GenerateLine_muted)
  from u a p none b cold c fire deg d show ?thesis by blast
qed

subsection \<open>The failures of the main entry point\<close>

text \<open>
  The token replacements always return and the index into the resigned tails is always
  in range, so the only way \<open>GenerateLine\<close> does not return a line is the read of the
  last character of an empty line.
\<close>

lemma ReplaceToken_returns: "\<exists>r. ReplaceToken tx token val = Some r"
  by (cases "token = []") (simp_all add: ReplaceToken_def ReplaceToken_loop_eq)

lemma substitute_tokens_returns: "\<exists>b. substitute_tokens base ctx profile = Some b"
proof -
  obtain b1 where b1: "ReplaceToken base ''{PLAYER_CALLSIGN}'' (PickPlayerCallsign profile) = Some b1"
    using ReplaceToken_returns by blast
  obtain b2 where b2: "ReplaceToken b1 ''{LOCAL_SPIRIT}'' (PickLocalSpiritEpithet ctx) = Some b2"
    using ReplaceToken_returns by blast
  obtain b3 where b3: "ReplaceToken b2 ''{TABOO}'' (PickTabooPhrase ctx) = Some b3"
    using ReplaceToken_returns by blast
  obtain b4 where b4: "ReplaceToken b3 ''{PLACE}'' (PickPlaceName ctx) = Some b4"
    using ReplaceToken_returns by blast
  obtain b5 where b5: "ReplaceToken b4 ''{BODYSYMPTOM}'' (PickBodySymptom ctx) = Some b5"
    using ReplaceToken_returns by blast
  show ?thesis unfolding substitute_tokens_def by (simp only: b1 b2 b3 b4 b5 bind.bind_lunit) blast
qed

lemma RandomInt_range:
  assumes "lo \<le> hi"
  shows "lo \<le> fst (RandomInt lo hi g) \<and> fst (RandomInt lo hi g) \<le> hi"
proof -
  let ?u = "unit_draw (shd g)"
  let ?n = "real_of_int (hi - lo + 1)"
  have u: "0 \<le> ?u" "?u < 1" using unit_draw_bounds by auto
  have n: "0 < ?n" using assms by simp
  have "0 \<le> ?u * ?n" using u(1) n by simp
  then have lower: "0 \<le> \<lfloor>?u * ?n\<rfloor>" by simp
  have "?u * ?n < 1 * ?n" using u(2) n by (intro mult_strict_right_mono) auto
  then have "?u * ?n < real_of_int (hi - lo + 1)" by simp
  then have "\<lfloor>?u * ?n\<rfloor> < hi - lo + 1" by (simp only: floor_less_iff)
  with lower show ?thesis by (simp add: RandomInt_def)
qed

lemma style_fatalism_returns: "\<exists>r. style_fatalism line profile fn g = Inr r"
proof -
  have len: "int (length tails) = 4" by (simp add: tails_def)
  have rng: "0 \<le> fst (RandomInt 0 3 g') \<and> fst (RandomInt 0 3 g') < 4" for g'
    using RandomInt_range [of 0 3 g'] by simp
  show ?thesis
  proof (cases "fatalism01 profile > 6 / 10 \<and> fst (Chance (4 / 10) g) \<and> (fn = Dread \<or> fn = Rumor)")
    case True
    obtain idx g'' where r: "RandomInt 0 3 (snd (Chance (4 / 10) g)) = (idx, g'')"
      by (cases "RandomInt 0 3 (snd (Chance (4 / 10) g))") blast
    with rng [of "snd (Chance (4 / 10) g)"] have "0 \<le> idx" "idx < 4" by auto
    with True r show ?thesis
      by (simp add: style_fatalism_def len split_beta)
  next
    case False
    then show ?thesis
      by (simp add: style_fatalism_def split_beta)
  qed
qed

lemma ApplyStyleNoise_error:
  "ApplyStyleNoise line profile fn g = Inl e \<Longrightarrow> e = BackOfEmptyString"
proof -
  assume a: "ApplyStyleNoise line profile fn g = Inl e"
  obtain l1 g1 where t: "style_truncate line profile g = (l1, g1)"
    by (cases "style_truncate line profile g") blast
  obtain l2 g2 where f: "style_fatalism l1 profile fn g1 = Inr (l2, g2)"
    using style_fatalism_returns [of l1 profile fn g1] by auto
  obtain l3 g3 where b: "style_bureaucratic l2 profile fn g2 = (l3, g3)"
    by (cases "style_bureaucratic l2 profile fn g2") blast
  from a have "style_superstition l3 profile g3 = Inl e"
    by (simp add: ApplyStyleNoise_def t f b)
  then show ?thesis
    by (simp add: style_superstition_def split_beta split: if_splits)
qed

lemma RealizeTemplate_error:
  "RealizeTemplate t ctx profile g = Inl e \<Longrightarrow> e = BackOfEmptyString"
  using substitute_tokens_returns [of "text_tmpl t" ctx profile]
  by (auto simp: RealizeTemplate_def dest: ApplyStyleNoise_error)

lemma GenerateLine_error:
  assumes "GenerateLine s npc tag ctx = Inl e"
  shows "e = BackOfEmptyString"
proof (cases "GetNPCProfile s npc")
  case None
  with assms show ?thesis by (simp add: GenerateLine_unknown)
next
  case (Some p)
  let ?fn = "MapTriggerToFunction tag ctx p"
  let ?cands = "CollectCandidates (templates s) ctx p ?fn"
  from assms Some have fire: "CanFire s p ?fn"
    by (cases "CanFire s p ?fn") (simp_all add: GenerateLine_cooldown)
  from assms Some have ne: "?cands \<noteq> []"
    by (cases "?cands = []") (simp_all add: GenerateLine_no_candidates)
  from Pick_member [OF ne, of "rng s"] obtain chosen g where
    pick: "PickTemplateWeighted ?cands (rng s) = (Some chosen, g)"
    by blast
  from GenerateLine_selected [OF Some fire ne pick] assms
  have "RealizeTemplate chosen ctx p g = Inl e"
    by (cases "RealizeTemplate chosen ctx p g") auto
  then show ?thesis by (rule RealizeTemplate_error)
qed

end
